theory Spec2Isabelle
  imports Complex_Main
begin

section \<open>zrender/graphic/Path: the path element\<close>

text \<open>
  A shallow embedding of \<^verbatim>\<open>src/graphic/Path.js\<close>. JavaScript numbers are idealised as
  real numbers; the one place where the code can divide by zero (the effective line width
  under a singular transform) is written out with the value JavaScript produces there.
  Collaborators that live in other modules (the path proxy, the containment predicates,
  the bounding rectangle, the style object, the gradient, the drawing context) are
  parameters of the model, collected in the record \<open>env\<close>; every call made on one of them
  that draws or notifies is logged as an event.
\<close>

subsection \<open>Numbers\<close>

datatype jsnum = Fin real | PosInf | NegInf | NaN

text \<open>\<^verbatim>\<open>a + b\<close> on numbers that may be infinite.\<close>

fun js_add :: "jsnum \<Rightarrow> jsnum \<Rightarrow> jsnum" where
  "js_add NaN b = NaN"
| "js_add a NaN = NaN"
| "js_add (Fin a) (Fin b) = Fin (a + b)"
| "js_add PosInf NegInf = NaN"
| "js_add NegInf PosInf = NaN"
| "js_add PosInf b = PosInf"
| "js_add NegInf b = NegInf"
| "js_add (Fin a) b = b"

text \<open>Unary minus, and \<^verbatim>\<open>a - b\<close> as \<^verbatim>\<open>a + (-b)\<close>.\<close>

fun js_neg :: "jsnum \<Rightarrow> jsnum" where
  "js_neg (Fin a) = Fin (- a)"
| "js_neg PosInf = NegInf"
| "js_neg NegInf = PosInf"
| "js_neg NaN = NaN"

definition js_sub :: "jsnum \<Rightarrow> jsnum \<Rightarrow> jsnum" where
  "js_sub a b = js_add a (js_neg b)"

text \<open>\<^verbatim>\<open>a / 2\<close>.\<close>

fun js_half :: "jsnum \<Rightarrow> jsnum" where
  "js_half (Fin a) = Fin (a / 2)"
| "js_half a = a"

text \<open>
  \<^verbatim>\<open>a / b\<close> of two finite numbers, the divisor not negative (it is a line scale: a
  square root or 1, so a zero divisor is \<^verbatim>\<open>+0\<close>).
\<close>

definition js_div :: "real \<Rightarrow> real \<Rightarrow> jsnum" where
  "js_div a b =
     (if b = 0 then (if 0 < a then PosInf else if a < 0 then NegInf else NaN)
      else Fin (a / b))"

subsection \<open>The transform and the line scale\<close>

text \<open>
  A transform is the array \<^verbatim>\<open>[m0, m1, m2, m3, m4, m5]\<close>; the spec calls \<^verbatim>\<open>m[0]\<close>,
  \<^verbatim>\<open>m[1]\<close>, \<^verbatim>\<open>m[2]\<close>, \<^verbatim>\<open>m[3]\<close> the coefficients \<open>a\<close>, \<open>b\<close>, \<open>c\<close>, \<open>d\<close>. An absent
  transform (\<^verbatim>\<open>null\<close> or \<^verbatim>\<open>undefined\<close>) is \<open>None\<close>.
\<close>

record matrix =
  m0 :: real
  m1 :: real
  m2 :: real
  m3 :: real
  m4 :: real
  m5 :: real

text \<open>
  \<^verbatim>\<open>
  function getLineScale(m) {
      return m && abs(m[0] - 1) > 1e-10 && abs(m[3] - 1) > 1e-10
          ? Math.sqrt(abs(m[0] * m[3] - m[2] * m[1]))
          : 1;
  }
  \<close>
\<close>

definition getLineScale :: "matrix option \<Rightarrow> real" where
  "getLineScale m =
     (case m of
        None \<Rightarrow> 1
      | Some t \<Rightarrow>
          if \<bar>m0 t - 1\<bar> > 1 / 10 ^ 10 \<and> \<bar>m3 t - 1\<bar> > 1 / 10 ^ 10
          then sqrt \<bar>m0 t * m3 t - m2 t * m1 t\<bar>
          else 1)"

text \<open>
  The line scale as the specification words it: 1 when the transform is absent or when
  both \<open>a\<close> and \<open>d\<close> are within \<open>1e-10\<close> of 1, and the square root of the determinant's
  magnitude otherwise.
\<close>

definition getLineScale_spec :: "matrix option \<Rightarrow> real" where
  "getLineScale_spec m =
     (case m of
        None \<Rightarrow> 1
      | Some t \<Rightarrow>
          if \<bar>m0 t - 1\<bar> \<le> 1 / 10 ^ 10 \<and> \<bar>m3 t - 1\<bar> \<le> 1 / 10 ^ 10
          then 1
          else sqrt \<bar>m0 t * m3 t - m2 t * m1 t\<bar>)"

definition identity_matrix :: matrix where
  "identity_matrix = \<lparr>m0 = 1, m1 = 0, m2 = 0, m3 = 1, m4 = 0, m5 = 0\<rparr>"

definition scale_matrix :: "real \<Rightarrow> real \<Rightarrow> matrix" where
  "scale_matrix sx sy = \<lparr>m0 = sx, m1 = 0, m2 = 0, m3 = sy, m4 = 0, m5 = 0\<rparr>"

subsection \<open>Style, paints and the two activity predicates\<close>

text \<open>
  A paint is a colour string (the literal \<^verbatim>\<open>'none'\<close> among them) or a gradient object;
  an absent paint (\<^verbatim>\<open>null\<close> or \<^verbatim>\<open>undefined\<close>) is \<open>None\<close>. \<open>label_text\<close> is
  \<^verbatim>\<open>style.text\<close>.
\<close>

datatype paint = Color string | Gradient nat

record style =
  fill :: "paint option"
  stroke :: "paint option"
  lineWidth :: real
  lineDash :: "real list option"
  lineDashOffset :: real
  label_text :: "string option"

text \<open>\<^verbatim>\<open>fill != null && fill !== 'none'\<close>\<close>

definition pathHasFill :: "style \<Rightarrow> bool" where
  "pathHasFill st = (fill st \<noteq> None \<and> fill st \<noteq> Some (Color ''none''))"

text \<open>\<^verbatim>\<open>stroke != null && stroke !== 'none' && style.lineWidth > 0\<close>\<close>

definition pathHasStroke :: "style \<Rightarrow> bool" where
  "pathHasStroke st =
     (stroke st \<noteq> None \<and> stroke st \<noteq> Some (Color ''none'') \<and> lineWidth st > 0)"

text \<open>\<^verbatim>\<open>paint instanceof Gradient\<close>\<close>

fun instanceofGradient :: "paint option \<Rightarrow> bool" where
  "instanceofGradient (Some (Gradient g)) = True"
| "instanceofGradient _ = False"

text \<open>Truthiness of \<^verbatim>\<open>style.text\<close>: absent and the empty string are falsy.\<close>

fun truthy_text :: "string option \<Rightarrow> bool" where
  "truthy_text None = False"
| "truthy_text (Some t) = (t \<noteq> [])"

text \<open>
  \<^verbatim>\<open>Math.max(w * lineScale, 5) / lineScale\<close>, as \<^verbatim>\<open>getBoundingRect\<close> and \<^verbatim>\<open>contain\<close>
  both compute it from \<^verbatim>\<open>style.lineWidth\<close> and \<^verbatim>\<open>getLineScale(this.transform)\<close>. Under
  a singular transform the line scale is 0 and the quotient is \<^verbatim>\<open>Infinity\<close>.
\<close>

definition effectiveLineWidth :: "style \<Rightarrow> matrix option \<Rightarrow> jsnum" where
  "effectiveLineWidth st m =
     (let w = lineWidth st; lineScale = getLineScale m
      in js_div (max (w * lineScale) 5) lineScale)"

subsection \<open>The path element and its collaborators\<close>

record rect =
  rect_x :: jsnum
  rect_y :: jsnum
  rect_width :: jsnum
  rect_height :: jsnum

text \<open>
  The fields of a Path that the module reads or writes. \<open>path\<close> is the owned
  \<^verbatim>\<open>PathProxy\<close> (its state is the type parameter \<open>'pp\<close>), \<open>dirtyPath\<close> is
  \<^verbatim>\<open>__dirtyPath\<close>, \<open>rect_cache\<close> is \<^verbatim>\<open>_rect\<close>, \<open>dirty_flag\<close> is \<^verbatim>\<open>__dirty\<close>,
  \<open>clipTarget\<close> is \<^verbatim>\<open>__clipTarget\<close> (a reference into the heap) and \<open>zr\<close> is
  \<^verbatim>\<open>__zr\<close>. An absent shape is \<open>None\<close>; a shape maps its own property names to values of
  type \<open>'v\<close>.
\<close>

record ('v, 'pp) path =
  shape :: "(string \<rightharpoonup> 'v) option"
  style :: style
  path :: 'pp
  dirtyPath :: bool
  rect_cache :: "rect option"
  dirty_flag :: bool
  transform :: "matrix option"
  clipTarget :: "nat option"
  zr :: "nat option"

text \<open>The drawing context: \<^verbatim>\<open>!!ctx.setLineDash\<close> is all the module asks of it.\<close>

record ctx =
  hasSetLineDash :: bool

datatype paint_slot = FillPaint | StrokePaint

text \<open>
  The calls the module makes on its collaborators, in the order made.
  \<open>ProxyBeginPath True\<close> is \<^verbatim>\<open>this.path.beginPath(ctx)\<close>, \<open>ProxyBeginPath False\<close> is
  \<^verbatim>\<open>path.beginPath()\<close>; \<open>BuildPath\<close> is \<^verbatim>\<open>this.buildPath(path, this.shape)\<close>;
  \<open>PathFill\<close> and \<open>PathStroke\<close> are \<^verbatim>\<open>path.fill(ctx)\<close> and \<^verbatim>\<open>path.stroke(ctx)\<close>.
\<close>

datatype event =
    CtxSave
  | CtxRestore
  | UpdateCanvasGradient paint_slot
  | StyleBind
  | SetTransform
  | ProxyBeginPath bool
  | ProxySetLineDash "real list"
  | ProxySetLineDashOffset real
  | BuildPath
  | CtxBeginPath
  | ProxyRebuildPath
  | PathFill
  | CtxSetLineDash "real list"
  | CtxLineDashOffset real
  | PathStroke
  | DrawRectText rect
  | ContainStroke
  | ContainFill
  | ZrRefresh nat

text \<open>
  The collaborators. \<open>buildPath\<close> is the geometry builder of the shape kind (the method
  that \<^verbatim>\<open>Path.extend\<close> installs), acting on the proxy it is given; the \<open>proxy...\<close>
  functions are \<^verbatim>\<open>PathProxy\<close>'s; \<open>rectContain\<close> is \<^verbatim>\<open>BoundingRect.contain\<close>;
  \<open>containStroke\<close> and \<open>containFill\<close> are \<^verbatim>\<open>pathContain.containStroke\<close> and
  \<^verbatim>\<open>pathContain.contain\<close> applied to the data of the proxy;
  \<open>transformCoordToLocal\<close> is the element's; \<open>extendFrom\<close> is \<^verbatim>\<open>Style.extendFrom\<close>;
  \<open>newPathProxy\<close> is \<^verbatim>\<open>new PathProxy()\<close>.
  \<open>gradientReadsRect\<close> says whether the gradient resolver queries the bounding rect of
  the element it is given.
\<close>

record ('v, 'pp) env =
  buildPath :: "(string \<rightharpoonup> 'v) option \<Rightarrow> 'pp \<Rightarrow> 'pp"
  proxyBeginPath :: "bool \<Rightarrow> 'pp \<Rightarrow> 'pp"
  proxySetLineDash :: "real list \<Rightarrow> 'pp \<Rightarrow> 'pp"
  proxySetLineDashOffset :: "real \<Rightarrow> 'pp \<Rightarrow> 'pp"
  proxyBoundingRect :: "'pp \<Rightarrow> rect"
  rectContain :: "rect \<Rightarrow> real \<Rightarrow> real \<Rightarrow> bool"
  containStroke :: "'pp \<Rightarrow> jsnum \<Rightarrow> real \<Rightarrow> real \<Rightarrow> bool"
  containFill :: "'pp \<Rightarrow> real \<Rightarrow> real \<Rightarrow> bool"
  transformCoordToLocal :: "('v, 'pp) path \<Rightarrow> real \<Rightarrow> real \<Rightarrow> real \<times> real"
  extendFrom :: "style \<Rightarrow> style \<Rightarrow> bool \<Rightarrow> style"
  newPathProxy :: 'pp
  gradientReadsRect :: bool

subsection \<open>getBoundingRect\<close>

text \<open>
  \<^verbatim>\<open>rect.width += w; rect.height += w; rect.x -= w / 2; rect.y -= w / 2;\<close>
\<close>

definition inflate :: "rect \<Rightarrow> jsnum \<Rightarrow> rect" where
  "inflate r w =
     \<lparr>rect_x = js_sub (rect_x r) (js_half w),
      rect_y = js_sub (rect_y r) (js_half w),
      rect_width = js_add (rect_width r) w,
      rect_height = js_add (rect_height r) w\<rparr>"

text \<open>
  \<^verbatim>\<open>
  getBoundingRect: function () {
      if (!this._rect) {
          var path = this.path;
          if (this.__dirtyPath) {
              path.beginPath();
              this.buildPath(path, this.shape);
          }
          this._rect = path.getBoundingRect();
          if (pathHasStroke(this.style)) {
              var rect = this._rect;
              var w = this.style.lineWidth;
              var lineScale = getLineScale(this.transform);
              w = Math.max(w * lineScale, 5) / lineScale;
              rect.width += w; rect.height += w; rect.x -= w / 2; rect.y -= w / 2;
          }
      }
      return this._rect;
  }
  \<close>
  The result is the returned rectangle, the calls made, and the element afterwards. The
  dirty-path flag is not written.
\<close>

definition getBoundingRect ::
  "('v, 'pp) env \<Rightarrow> ('v, 'pp) path \<Rightarrow> rect \<times> event list \<times> ('v, 'pp) path" where
  "getBoundingRect env p =
     (case rect_cache p of
        Some r \<Rightarrow> (r, [], p)
      | None \<Rightarrow>
          let evs = (if dirtyPath p then [ProxyBeginPath False, BuildPath] else []);
              pp = (if dirtyPath p
                    then buildPath env (shape p) (proxyBeginPath env False (path p))
                    else path p);
              raw = proxyBoundingRect env pp;
              r = (if pathHasStroke (style p)
                   then inflate raw (effectiveLineWidth (style p) (transform p))
                   else raw)
          in (r, evs, p\<lparr>path := pp, rect_cache := Some r\<rparr>))"

subsection \<open>brush\<close>

text \<open>
  Modelled from the spec: \<^verbatim>\<open>Gradient.updateCanvasGradient\<close>, called as
  \<^verbatim>\<open>paint.updateCanvasGradient(this, ctx)\<close>, is not in this module. The spec has it resolve
  the gradient "against the current bounding rect" of the element, so the model logs the
  call and, when \<open>gradientReadsRect\<close> holds, lets it call the element's
  \<^verbatim>\<open>getBoundingRect\<close>.
\<close>

definition updateCanvasGradient ::
  "('v, 'pp) env \<Rightarrow> paint_slot \<Rightarrow> ('v, 'pp) path \<Rightarrow> event list \<times> ('v, 'pp) path" where
  "updateCanvasGradient env slot p =
     (if gradientReadsRect env
      then (case getBoundingRect env p of (r, evs, p') \<Rightarrow> (UpdateCanvasGradient slot # evs, p'))
      else ([UpdateCanvasGradient slot], p))"

text \<open>
  \<^verbatim>\<open>
  if (this.__dirtyPath) {
      // Update gradient because bounding rect may changed
      if (hasFill && (style.fill instanceof Gradient)) {
          style.fill.updateCanvasGradient(this, ctx);
      }
      if (hasStroke && (style.stroke instanceof Gradient)) {
          style.stroke.updateCanvasGradient(this, ctx);
      }
  }
  \<close>
\<close>

definition brushGradients ::
  "('v, 'pp) env \<Rightarrow> ('v, 'pp) path \<Rightarrow> event list \<times> ('v, 'pp) path" where
  "brushGradients env p =
     (let st = style p; hasStroke = pathHasStroke st; hasFill = pathHasFill st
      in if dirtyPath p
         then (case (if hasFill \<and> instanceofGradient (fill st)
                     then updateCanvasGradient env FillPaint p else ([], p)) of
                 (evs1, p1) \<Rightarrow>
                   (case (if hasStroke \<and> instanceofGradient (stroke st)
                          then updateCanvasGradient env StrokePaint p1 else ([], p1)) of
                      (evs2, p2) \<Rightarrow> (evs1 @ evs2, p2)))
         else ([], p))"

text \<open>
  \<^verbatim>\<open>
  if (this.__dirtyPath || (lineDash && !ctxLineDash && hasStroke)) {
      path = this.path.beginPath(ctx);
      if (lineDash && !ctxLineDash) {
          path.setLineDash(lineDash);
          path.setLineDashOffset(lineDashOffset);
      }
      this.buildPath(path, this.shape);
      this.__dirtyPath = false;
  }
  else {
      ctx.beginPath();
      this.path.rebuildPath(ctx);
  }
  \<close>
\<close>

definition brushGeometry ::
  "('v, 'pp) env \<Rightarrow> ctx \<Rightarrow> ('v, 'pp) path \<Rightarrow> event list \<times> ('v, 'pp) path" where
  "brushGeometry env c p =
     (let st = style p; hasStroke = pathHasStroke st;
          ctxLineDash = hasSetLineDash c
      in if dirtyPath p \<or> (lineDash st \<noteq> None \<and> \<not> ctxLineDash \<and> hasStroke)
         then (case lineDash st of
                 Some d \<Rightarrow>
                   if \<not> ctxLineDash
                   then ([ProxyBeginPath True, ProxySetLineDash d,
                          ProxySetLineDashOffset (lineDashOffset st), BuildPath],
                         p\<lparr>path := buildPath env (shape p)
                              (proxySetLineDashOffset env (lineDashOffset st)
                                (proxySetLineDash env d (proxyBeginPath env True (path p)))),
                           dirtyPath := False\<rparr>)
                   else ([ProxyBeginPath True, BuildPath],
                         p\<lparr>path := buildPath env (shape p) (proxyBeginPath env True (path p)),
                           dirtyPath := False\<rparr>)
               | None \<Rightarrow>
                   ([ProxyBeginPath True, BuildPath],
                    p\<lparr>path := buildPath env (shape p) (proxyBeginPath env True (path p)),
                      dirtyPath := False\<rparr>))
         else ([CtxBeginPath, ProxyRebuildPath], p))"

text \<open>
  \<^verbatim>\<open>
  hasFill && path.fill(ctx);
  if (lineDash && ctxLineDash) {
      ctx.setLineDash(lineDash);
      ctx.lineDashOffset = lineDashOffset;
  }
  hasStroke && path.stroke(ctx);
  \<close>
\<close>

definition brushPaint :: "ctx \<Rightarrow> style \<Rightarrow> event list" where
  "brushPaint c st =
     (if pathHasFill st then [PathFill] else [])
     @ (case lineDash st of
          Some d \<Rightarrow>
            if hasSetLineDash c then [CtxSetLineDash d, CtxLineDashOffset (lineDashOffset st)]
            else []
        | None \<Rightarrow> [])
     @ (if pathHasStroke st then [PathStroke] else [])"

text \<open>
  \<^verbatim>\<open>
  if (style.text) {
      this.drawRectText(ctx, this.getBoundingRect());
  }
  \<close>
\<close>

definition brushText ::
  "('v, 'pp) env \<Rightarrow> ('v, 'pp) path \<Rightarrow> event list \<times> ('v, 'pp) path" where
  "brushText env p =
     (if truthy_text (label_text (style p))
      then (case getBoundingRect env p of (r, evs, p') \<Rightarrow> (evs @ [DrawRectText r], p'))
      else ([], p))"

text \<open>
  \<^verbatim>\<open>brush: function (ctx)\<close>: \<^verbatim>\<open>ctx.save()\<close>, the gradients, \<^verbatim>\<open>this.style.bind(ctx)\<close>,
  \<^verbatim>\<open>this.setTransform(ctx)\<close>, the rebuild or the replay, fill and stroke, the text,
  \<^verbatim>\<open>ctx.restore()\<close>.
\<close>

definition brush ::
  "('v, 'pp) env \<Rightarrow> ctx \<Rightarrow> ('v, 'pp) path \<Rightarrow> event list \<times> ('v, 'pp) path" where
  "brush env c p =
     (case brushGradients env p of
        (evs1, p1) \<Rightarrow>
          (case brushGeometry env c p1 of
             (evs2, p2) \<Rightarrow>
               (case brushText env p2 of
                  (evs3, p3) \<Rightarrow>
                    (CtxSave # evs1 @ [StyleBind, SetTransform] @ evs2
                       @ brushPaint c (style p) @ evs3 @ [CtxRestore],
                     p3))))"

subsection \<open>contain\<close>

text \<open>
  \<^verbatim>\<open>
  contain: function (x, y) {
      var localPos = this.transformCoordToLocal(x, y);
      var rect = this.getBoundingRect();
      var style = this.style;
      x = localPos[0];
      y = localPos[1];
      if (rect.contain(x, y)) {
          var pathData = this.path.data;
          if (pathHasStroke(style)) {
              var lineWidth = style.lineWidth;
              var lineScale = getLineScale(this.transform);
              lineWidth = Math.max(lineWidth * lineScale, 5) / lineScale;
              if (pathContain.containStroke(pathData, lineWidth, x, y)) {
                  return true;
              }
          }
          if (pathHasFill(style)) {
              return pathContain.contain(pathData, x, y);
          }
      }
      return false;
  }
  \<close>
  The two predicate calls are logged, so that their order can be stated.
\<close>

definition contain ::
  "('v, 'pp) env \<Rightarrow> ('v, 'pp) path \<Rightarrow> real \<Rightarrow> real \<Rightarrow> bool \<times> event list \<times> ('v, 'pp) path" where
  "contain env p x0 y0 =
     (case transformCoordToLocal env p x0 y0 of
        (lx, ly) \<Rightarrow>
          (case getBoundingRect env p of
             (r, evs, p1) \<Rightarrow>
               let st = style p1 in
               if rectContain env r lx ly
               then (if pathHasStroke st
                        \<and> containStroke env (path p1)
                             (effectiveLineWidth st (transform p1)) lx ly
                     then (True, evs @ [ContainStroke], p1)
                     else if pathHasFill st
                     then (containFill env (path p1) lx ly,
                           evs @ (if pathHasStroke st then [ContainStroke] else [])
                               @ [ContainFill],
                           p1)
                     else (False, evs @ (if pathHasStroke st then [ContainStroke] else []), p1))
               else (False, evs, p1)))"

subsection \<open>The heap, dirty and setShape\<close>

text \<open>
  \<^verbatim>\<open>dirty\<close> follows \<^verbatim>\<open>__clipTarget\<close> to another element, so it is modelled on a heap of
  elements, with the log of the calls made so far. The only \<^verbatim>\<open>dirty\<close> in this module is
  Path's, so the elements of the heap are Paths; a clip target of another kind is covered
  by the scenes defined further below.
\<close>

record ('v, 'pp) world =
  heap :: "nat \<Rightarrow> ('v, 'pp) path"
  trace :: "event list"

text \<open>
  A call returns a value and leaves a world, or it exhausts the call stack (the clip
  targets can form a cycle) and throws, leaving the world as written so far.
\<close>

datatype ('a, 'w) outcome = Returned 'a 'w | StackOverflow 'w

fun world_of :: "('a, 'w) outcome \<Rightarrow> 'w" where
  "world_of (Returned a w) = w"
| "world_of (StackOverflow w) = w"

text \<open>
  The body of \<^verbatim>\<open>dirty\<close> up to the clip target. The argument is \<open>None\<close> for a call with
  no arguments and \<open>Some b\<close> for a call whose argument has truthiness \<open>b\<close>.
  \<^verbatim>\<open>
  if (arguments.length ===0) {
      dirtyPath = true;
  }
  // Only mark dirty, not mark clean
  if (dirtyPath) {
      this.__dirtyPath = dirtyPath;
      this._rect = null;
  }
  this.__dirty = true;
  this.__zr && this.__zr.refresh();
  \<close>
\<close>

definition dirty_self ::
  "('v, 'pp) world \<Rightarrow> nat \<Rightarrow> bool option \<Rightarrow> ('v, 'pp) world" where
  "dirty_self w this a =
     (let p = heap w this;
          dirtyPathArg = (case a of None \<Rightarrow> True | Some b \<Rightarrow> b);
          p1 = (if dirtyPathArg then p\<lparr>dirtyPath := True, rect_cache := None\<rparr> else p);
          p2 = p1\<lparr>dirty_flag := True\<rparr>
      in w\<lparr>heap := (heap w)(this := p2),
           trace := trace w @ (case zr p2 of None \<Rightarrow> [] | Some z \<Rightarrow> [ZrRefresh z])\<rparr>)"

text \<open>
  \<^verbatim>\<open>
  // Used as a clipping path
  if (this.__clipTarget) {
      this.__clipTarget.dirty();
  }
  \<close>
  The first argument is the number of frames the call stack still has room for, the
  frame of this call included.
\<close>

fun dirty ::
  "nat \<Rightarrow> ('v, 'pp) world \<Rightarrow> nat \<Rightarrow> bool option \<Rightarrow> (unit, ('v, 'pp) world) outcome" where
  "dirty 0 w this a = StackOverflow w"
| "dirty (Suc n) w this a =
     (let w1 = dirty_self w this a
      in case clipTarget (heap w1 this) of
           None \<Rightarrow> Returned () w1
         | Some e \<Rightarrow> dirty n w1 e None)"

text \<open>
  The argument of \<^verbatim>\<open>setShape\<close>: an object (\<^verbatim>\<open>zrUtil.isObject(key)\<close>) with its enumerable
  properties in order, or a key and a value.
\<close>

datatype 'v shape_arg = ObjectArg "(string \<times> 'v) list" | KeyArg string 'v

text \<open>
  \<^verbatim>\<open>
  setShape: function (key, value) {
      var shape = this.shape;
      // Path from string may not have shape
      if (shape) {
          if (zrUtil.isObject(key)) {
              for (var name in key) {
                  shape[name] = key[name];
              }
          }
          else {
              shape[key] = value;
          }
          this.dirty(true);
      }
      return this;
  }
  \<close>
  The value returned is the reference \<open>this\<close>; the first argument is the room the call
  stack has for the call of \<^verbatim>\<open>this.dirty(true)\<close>.
\<close>

definition setShape ::
  "nat \<Rightarrow> ('v, 'pp) world \<Rightarrow> nat \<Rightarrow> 'v shape_arg \<Rightarrow> (nat, ('v, 'pp) world) outcome" where
  "setShape n w this arg =
     (case shape (heap w this) of
        None \<Rightarrow> Returned this w
      | Some sh \<Rightarrow>
          let sh' = (case arg of
                       ObjectArg kvs \<Rightarrow> fold (\<lambda>(name, v) s. s(name \<mapsto> v)) kvs sh
                     | KeyArg k v \<Rightarrow> sh(k \<mapsto> v));
              w1 = w\<lparr>heap := (heap w)(this := (heap w this)\<lparr>shape := Some sh'\<rparr>)\<rparr>
          in (case dirty n w1 this (Some True) of
                Returned u w2 \<Rightarrow> Returned this w2
              | StackOverflow w2 \<Rightarrow> StackOverflow w2))"

text \<open>The element-level operations, run on the element at a reference of the heap.\<close>

definition brush_at ::
  "('v, 'pp) env \<Rightarrow> ctx \<Rightarrow> ('v, 'pp) world \<Rightarrow> nat \<Rightarrow> ('v, 'pp) world" where
  "brush_at env c w this =
     (case brush env c (heap w this) of
        (evs, p') \<Rightarrow> w\<lparr>heap := (heap w)(this := p'), trace := trace w @ evs\<rparr>)"

definition getBoundingRect_at ::
  "('v, 'pp) env \<Rightarrow> ('v, 'pp) world \<Rightarrow> nat \<Rightarrow> ('v, 'pp) world" where
  "getBoundingRect_at env w this =
     (case getBoundingRect env (heap w this) of
        (r, evs, p') \<Rightarrow> w\<lparr>heap := (heap w)(this := p'), trace := trace w @ evs\<rparr>)"

definition contain_at ::
  "('v, 'pp) env \<Rightarrow> ('v, 'pp) world \<Rightarrow> nat \<Rightarrow> real \<Rightarrow> real \<Rightarrow> ('v, 'pp) world" where
  "contain_at env w this x0 y0 =
     (case contain env (heap w this) x0 y0 of
        (b, evs, p') \<Rightarrow> w\<lparr>heap := (heap w)(this := p'), trace := trace w @ evs\<rparr>)"

subsection \<open>Path.extend\<close>

text \<open>
  The construction options, as far as the module uses them: the shape object, if one is
  given, and the style built from \<^verbatim>\<open>opts.style\<close>.
\<close>

record 'v opts =
  o_shape :: "(string \<rightharpoonup> 'v) option"
  o_style :: style

text \<open>
  Modelled from the spec: the constructor of \<^verbatim>\<open>Displayable\<close>, which \<^verbatim>\<open>Path(opts)\<close>
  calls, is not in this module. By the spec it leaves the instance with the shape and
  style of the construction options and no cached rect; the prototype has
  \<^verbatim>\<open>__dirtyPath: true\<close>, and \<^verbatim>\<open>Path\<close> itself sets \<^verbatim>\<open>this.path = new PathProxy()\<close>.
\<close>

definition Path_new :: "('v, 'pp) env \<Rightarrow> 'v opts \<Rightarrow> ('v, 'pp) path" where
  "Path_new env opts =
     \<lparr>shape = o_shape opts, style = o_style opts, path = newPathProxy env,
      dirtyPath = True, rect_cache = None, dirty_flag = True, transform = None,
      clipTarget = None, zr = None\<rparr>"

text \<open>
  The argument of \<^verbatim>\<open>Path.extend\<close>: the default style and shape, if given (the shape with
  its own properties in order), and the \<^verbatim>\<open>init\<close> hook, which is called on the instance
  with the construction options and may write to the instance.
\<close>

record ('v, 'pp) defaults =
  d_style :: "style option"
  d_shape :: "(string \<times> 'v) list option"
  d_init :: "(('v, 'pp) path \<Rightarrow> 'v opts \<Rightarrow> ('v, 'pp) path) option"

text \<open>
  \<^verbatim>\<open>
  for (var name in defaultShape) {
      if (! thisShape.hasOwnProperty(name) && defaultShape.hasOwnProperty(name)) {
          thisShape[name] = defaultShape[name];
      }
  }
  \<close>
\<close>

fun extendShape ::
  "(string \<times> 'v) list \<Rightarrow> string list \<Rightarrow> (string \<rightharpoonup> 'v) \<Rightarrow> (string \<rightharpoonup> 'v)" where
  "extendShape defaultShape [] thisShape = thisShape"
| "extendShape defaultShape (name # names) thisShape =
     extendShape defaultShape names
       (if thisShape name = None \<and> map_of defaultShape name \<noteq> None
        then thisShape(name := map_of defaultShape name)
        else thisShape)"

text \<open>
  The constructor \<^verbatim>\<open>Sub\<close> up to the \<^verbatim>\<open>init\<close> hook:
  \<^verbatim>\<open>
  Path.call(this, opts);
  if (defaults.style) {
      this.style.extendFrom(defaults.style, false);
  }
  var defaultShape = defaults.shape;
  if (defaultShape) {
      this.shape = this.shape || {};
      var thisShape = this.shape;
      for (var name in defaultShape) { ... }
  }
  \<close>
\<close>

definition Sub_defaults ::
  "('v, 'pp) env \<Rightarrow> ('v, 'pp) defaults \<Rightarrow> 'v opts \<Rightarrow> ('v, 'pp) path" where
  "Sub_defaults env defaults opts =
     (let p0 = Path_new env opts;
          p1 = (case d_style defaults of
                  None \<Rightarrow> p0
                | Some ds \<Rightarrow> p0\<lparr>style := extendFrom env (style p0) ds False\<rparr>)
      in case d_shape defaults of
           None \<Rightarrow> p1
         | Some defaultShape \<Rightarrow>
             let thisShape = (case shape p1 of None \<Rightarrow> Map.empty | Some sh \<Rightarrow> sh)
             in p1\<lparr>shape := Some (extendShape defaultShape (map fst defaultShape) thisShape)\<rparr>)"

text \<open>
  The whole constructor: \<^verbatim>\<open>defaults.init && defaults.init.call(this, opts);\<close> comes
  last. \<^verbatim>\<open>Path.extend\<close> also copies every entry of the definition but \<^verbatim>\<open>style\<close> and
  \<^verbatim>\<open>shape\<close> to the prototype of the new kind; the geometry builder installed that way is
  \<open>buildPath\<close> of \<open>env\<close>.
\<close>

definition Sub ::
  "('v, 'pp) env \<Rightarrow> ('v, 'pp) defaults \<Rightarrow> 'v opts \<Rightarrow> ('v, 'pp) path" where
  "Sub env defaults opts =
     (let p = Sub_defaults env defaults opts
      in case d_init defaults of None \<Rightarrow> p | Some init \<Rightarrow> init p opts)"

text \<open>
  The shape the specification promises: each key has the value of the construction
  options when they supply it, and the default value otherwise.
\<close>

definition merged_shape ::
  "(string \<times> 'v) list \<Rightarrow> (string \<rightharpoonup> 'v) option \<Rightarrow> (string \<rightharpoonup> 'v)" where
  "merged_shape defaultShape given =
     (\<lambda>name. case (case given of None \<Rightarrow> None | Some sh \<Rightarrow> sh name) of
                Some v \<Rightarrow> Some v
              | None \<Rightarrow> map_of defaultShape name)"

subsection \<open>Reachable worlds\<close>

text \<open>
  The worlds reachable from construction by the public operations. In a world just
  constructed every element has its dirty-path flag set and no cached rect; the fields
  the base element owns are arbitrary. \<open>G\<close> says on which elements \<^verbatim>\<open>getBoundingRect\<close> and
  \<^verbatim>\<open>contain\<close> may be called: everywhere (\<open>\<lambda>p. True\<close>) for the operations as they are.
\<close>

definition constructed :: "('v, 'pp) world \<Rightarrow> bool" where
  "constructed w = (\<forall>this. dirtyPath (heap w this) \<and> rect_cache (heap w this) = None)"

inductive reachable ::
  "('v, 'pp) env \<Rightarrow> (('v, 'pp) path \<Rightarrow> bool) \<Rightarrow> ('v, 'pp) world \<Rightarrow> bool"
  for env :: "('v, 'pp) env" and G :: "('v, 'pp) path \<Rightarrow> bool" where
  r_construct: "constructed w \<Longrightarrow> reachable env G w"
| r_brush: "reachable env G w \<Longrightarrow> reachable env G (brush_at env c w this)"
| r_getBoundingRect:
    "reachable env G w \<Longrightarrow> G (heap w this) \<Longrightarrow> reachable env G (getBoundingRect_at env w this)"
| r_contain:
    "reachable env G w \<Longrightarrow> G (heap w this) \<Longrightarrow> reachable env G (contain_at env w this x0 y0)"
| r_setShape: "reachable env G w \<Longrightarrow> reachable env G (world_of (setShape n w this arg))"
| r_dirty: "reachable env G w \<Longrightarrow> reachable env G (world_of (dirty n w this a))"

text \<open>The invariant of C1 on one element.\<close>

definition rect_only_if_clean :: "('v, 'pp) path \<Rightarrow> bool" where
  "rect_only_if_clean p = (rect_cache p \<noteq> None \<longrightarrow> \<not> dirtyPath p)"

text \<open>\<open>a\<close> occurs in \<open>xs\<close> before the first \<open>b\<close>, and \<open>b\<close> occurs.\<close>

definition precedes :: "'a \<Rightarrow> 'a \<Rightarrow> 'a list \<Rightarrow> bool" where
  "precedes a b xs = (a \<in> set (takeWhile (\<lambda>e. e \<noteq> b) xs) \<and> b \<in> set xs)"

text \<open>The rebuild condition that does not depend on the dirty-path flag.\<close>

definition softwareDash :: "ctx \<Rightarrow> style \<Rightarrow> bool" where
  "softwareDash c st = (lineDash st \<noteq> None \<and> \<not> hasSetLineDash c \<and> pathHasStroke st)"

text \<open>The clip chain that starts at \<open>this\<close> ends within \<open>n\<close> elements.\<close>

fun clip_chain_ends :: "nat \<Rightarrow> (nat \<Rightarrow> ('v, 'pp) path) \<Rightarrow> nat \<Rightarrow> bool" where
  "clip_chain_ends 0 h this = False"
| "clip_chain_ends (Suc n) h this =
     (case clipTarget (h this) of None \<Rightarrow> True | Some e \<Rightarrow> clip_chain_ends n h e)"

subsection \<open>dirty when the clip target need not be a Path\<close>

text \<open>
  \<^verbatim>\<open>this.__clipTarget.dirty()\<close> is a method call on whatever element uses the Path as
  its clip path, and that element need not be a Path. A scene holds elements of both
  sorts: Paths, and elements of other kinds with a state of type \<open>'o\<close>. The dirty-path
  flag and the cached rect of this module are fields of a Path; an element of another
  kind has neither.
\<close>

datatype ('v, 'pp, 'o) element = PathElement "('v, 'pp) path" | OtherElement 'o

record ('v, 'pp, 'o) scene =
  elements :: "nat \<Rightarrow> ('v, 'pp, 'o) element"
  calls :: "event list"

text \<open>
  The writes of \<^verbatim>\<open>dirty\<close> to the Path it is called on (the argument as in \<open>dirty_self\<close>):
  \<^verbatim>\<open>
  if (arguments.length ===0) {
      dirtyPath = true;
  }
  if (dirtyPath) {
      this.__dirtyPath = dirtyPath;
      this._rect = null;
  }
  this.__dirty = true;
  \<close>
\<close>

definition dirty_path :: "('v, 'pp) path \<Rightarrow> bool option \<Rightarrow> ('v, 'pp) path" where
  "dirty_path p a =
     (let dirtyPathArg = (case a of None \<Rightarrow> True | Some b \<Rightarrow> b);
          p1 = (if dirtyPathArg then p\<lparr>dirtyPath := True, rect_cache := None\<rparr> else p)
      in p1\<lparr>dirty_flag := True\<rparr>)"

text \<open>The scene after those writes and \<^verbatim>\<open>this.__zr && this.__zr.refresh()\<close>.\<close>

definition dirty_path_in ::
  "('v, 'pp, 'o) scene \<Rightarrow> nat \<Rightarrow> ('v, 'pp) path \<Rightarrow> bool option \<Rightarrow> ('v, 'pp, 'o) scene" where
  "dirty_path_in s this p a =
     s\<lparr>elements := (elements s)(this := PathElement (dirty_path p a)),
       calls := calls s @ (case zr (dirty_path p a) of None \<Rightarrow> [] | Some z \<Rightarrow> [ZrRefresh z])\<rparr>"

text \<open>
  \<^verbatim>\<open>dirty\<close> called on an element of a scene. On a Path it is the method of this module,
  which ends with
  \<^verbatim>\<open>
  if (this.__clipTarget) {
      this.__clipTarget.dirty();
  }
  \<close>
  On an element of another kind it is the method of that kind, which is not in this
  module: it is the parameter \<open>other_dirty\<close>, given the argument and the state of the
  element and returning the state it leaves. The first numeric argument is the room of
  the call stack, as for \<open>dirty\<close>.
\<close>

fun dirty_in_scene ::
  "(bool option \<Rightarrow> 'o \<Rightarrow> 'o) \<Rightarrow> nat \<Rightarrow> ('v, 'pp, 'o) scene \<Rightarrow> nat \<Rightarrow> bool option
     \<Rightarrow> (unit, ('v, 'pp, 'o) scene) outcome" where
  "dirty_in_scene other_dirty 0 s this a = StackOverflow s"
| "dirty_in_scene other_dirty (Suc n) s this a =
     (case elements s this of
        OtherElement x \<Rightarrow>
          Returned () (s\<lparr>elements := (elements s)(this := OtherElement (other_dirty a x))\<rparr>)
      | PathElement p \<Rightarrow>
          (case clipTarget (dirty_path p a) of
             None \<Rightarrow> Returned () (dirty_path_in s this p a)
           | Some e \<Rightarrow> dirty_in_scene other_dirty n (dirty_path_in s this p a) e None))"

text \<open>\<^verbatim>\<open>element.__dirtyPath\<close>: the flag of a Path, and undefined on any other element.\<close>

fun element_dirtyPath :: "('v, 'pp, 'o) element \<Rightarrow> bool option" where
  "element_dirtyPath (PathElement p) = Some (dirtyPath p)"
| "element_dirtyPath (OtherElement x) = None"

text \<open>The element is a Path whose dirty-path flag is set and whose cached rect is null.\<close>

fun geometry_dirty :: "('v, 'pp, 'o) element \<Rightarrow> bool" where
  "geometry_dirty (PathElement p) = (dirtyPath p \<and> rect_cache p = None)"
| "geometry_dirty (OtherElement x) = False"

text \<open>The clip target that \<^verbatim>\<open>dirty\<close> follows from an element: only a Path's.\<close>

fun clip_target_of :: "('v, 'pp, 'o) element \<Rightarrow> nat option" where
  "clip_target_of (PathElement p) = clipTarget p"
| "clip_target_of (OtherElement x) = None"

text \<open>\<open>q\<close> is among the first \<open>n\<close> elements of the clip chain that starts at \<open>this\<close>.\<close>

fun on_scene_clip_chain ::
  "nat \<Rightarrow> (nat \<Rightarrow> ('v, 'pp, 'o) element) \<Rightarrow> nat \<Rightarrow> nat \<Rightarrow> bool" where
  "on_scene_clip_chain 0 h this q = False"
| "on_scene_clip_chain (Suc n) h this q =
     (this = q \<or> (case clip_target_of (h this) of
                     None \<Rightarrow> False
                   | Some e \<Rightarrow> on_scene_clip_chain n h e q))"

text \<open>A world of Paths as a scene, and an outcome in the one as an outcome in the other.\<close>

definition scene_of :: "('v, 'pp) world \<Rightarrow> ('v, 'pp, 'o) scene" where
  "scene_of w = \<lparr>elements = (\<lambda>this. PathElement (heap w this)), calls = trace w\<rparr>"

fun outcome_in_scene ::
  "(unit, ('v, 'pp) world) outcome \<Rightarrow> (unit, ('v, 'pp, 'o) scene) outcome" where
  "outcome_in_scene (Returned u w) = Returned u (scene_of w)"
| "outcome_in_scene (StackOverflow w) = StackOverflow (scene_of w)"

subsection \<open>Concrete elements\<close>

text \<open>
  A shape kind whose geometry has the bounds \<open>(0, 0, 10, 10)\<close> and whose proxy carries no
  other state, a style with a red fill and a blue stroke of width 1, and worlds built from
  them: the inputs of the closed theorems below.
\<close>

definition demo_rect :: rect where
  "demo_rect = \<lparr>rect_x = Fin 0, rect_y = Fin 0, rect_width = Fin 10, rect_height = Fin 10\<rparr>"

definition demo_env :: "(real, unit) env" where
  "demo_env =
     \<lparr>buildPath = (\<lambda>sh pp. pp),
      proxyBeginPath = (\<lambda>b pp. pp),
      proxySetLineDash = (\<lambda>d pp. pp),
      proxySetLineDashOffset = (\<lambda>off pp. pp),
      proxyBoundingRect = (\<lambda>pp. demo_rect),
      rectContain = (\<lambda>r lx ly. True),
      containStroke = (\<lambda>pp w lx ly. True),
      containFill = (\<lambda>pp lx ly. False),
      transformCoordToLocal = (\<lambda>p x0 y0. (x0, y0)),
      extendFrom = (\<lambda>st ds overwrite. st),
      newPathProxy = (),
      gradientReadsRect = True\<rparr>"

definition demo_style :: style where
  "demo_style =
     \<lparr>fill = Some (Color ''red''), stroke = Some (Color ''blue''), lineWidth = 1,
      lineDash = None, lineDashOffset = 0, label_text = None\<rparr>"

definition demo_path :: "style \<Rightarrow> (real, unit) path" where
  "demo_path st = Path_new demo_env \<lparr>o_shape = Some [''r'' \<mapsto> 10], o_style = st\<rparr>"

definition demo_world :: "style \<Rightarrow> (real, unit) world" where
  "demo_world st = \<lparr>heap = (\<lambda>this. demo_path st), trace = []\<rparr>"

text \<open>
  Element 0 is the clip path of element 1, which is clean and has a cached rect; no other
  element is a clip path.
\<close>

definition clip_world :: "(real, unit) world" where
  "clip_world =
     \<lparr>heap = (\<lambda>this. if this = 0 then (demo_path demo_style)\<lparr>clipTarget := Some 1\<rparr>
                      else (demo_path demo_style)\<lparr>dirtyPath := False,
                                                  rect_cache := Some demo_rect\<rparr>),
      trace = []\<rparr>"

definition no_native_dash :: ctx where
  "no_native_dash = \<lparr>hasSetLineDash = False\<rparr>"

definition native_dash :: ctx where
  "native_dash = \<lparr>hasSetLineDash = True\<rparr>"

text \<open>
  Further inputs: a style whose fill is a gradient, a style with a dash pattern, the
  element of a world after \<^verbatim>\<open>dirty(true)\<close>, an element whose rect was cached before its
  line width was set to 10, a world of elements without a shape, and an extension with
  the default shape \<^verbatim>\<open>{a: 1}\<close>, construction options with the shape \<^verbatim>\<open>{a: 5}\<close> and an
  \<^verbatim>\<open>init\<close> hook that writes \<^verbatim>\<open>this.shape = {a: 0}\<close>.
\<close>

definition gradient_style :: style where
  "gradient_style = demo_style\<lparr>fill := Some (Gradient 0)\<rparr>"

definition dashed_style :: style where
  "dashed_style = demo_style\<lparr>lineDash := Some [5, 5]\<rparr>"

definition marked_dirty :: "style \<Rightarrow> (real, unit) path" where
  "marked_dirty st = heap (world_of (dirty 1 (demo_world st) 0 (Some True))) 0"

definition stale_path :: "(real, unit) path" where
  "stale_path =
     (snd (snd (getBoundingRect demo_env (demo_path demo_style))))
       \<lparr>style := demo_style\<lparr>lineWidth := 10\<rparr>\<rparr>"

text \<open>
  Two scenes in which element 0 is a clean Path with a cached rect and is the clip path
  of element 1. In the first, element 1 is an element of another kind, whose state is its
  repaint flag and whose \<^verbatim>\<open>dirty\<close> sets that flag; in the second it is a clean Path with
  a cached rect.
\<close>

definition clean_clip_path :: "(real, unit) path" where
  "clean_clip_path =
     (demo_path demo_style)\<lparr>dirtyPath := False, rect_cache := Some demo_rect,
                             dirty_flag := False, clipTarget := Some 1\<rparr>"

definition mark_repaint :: "bool option \<Rightarrow> bool \<Rightarrow> bool" where
  "mark_repaint a flag = True"

definition other_target_scene :: "(real, unit, bool) scene" where
  "other_target_scene =
     \<lparr>elements = (\<lambda>this. if this = 0 then PathElement clean_clip_path else OtherElement False),
      calls = []\<rparr>"

definition path_target_scene :: "(real, unit, bool) scene" where
  "path_target_scene =
     \<lparr>elements = (\<lambda>this. if this = 0 then PathElement clean_clip_path
                          else PathElement ((demo_path demo_style)
                                 \<lparr>dirtyPath := False, rect_cache := Some demo_rect,
                                  dirty_flag := False\<rparr>)),
      calls = []\<rparr>"

definition shapeless_world :: "(real, unit) world" where
  "shapeless_world =
     \<lparr>heap = (\<lambda>this. Path_new demo_env \<lparr>o_shape = None, o_style = demo_style\<rparr>), trace = []\<rparr>"

definition a1_defaults :: "(real, unit) defaults" where
  "a1_defaults = \<lparr>d_style = None, d_shape = Some [(''a'', 1)], d_init = None\<rparr>"

definition a5_opts :: "real opts" where
  "a5_opts = \<lparr>o_shape = Some [''a'' \<mapsto> 5], o_style = demo_style\<rparr>"

definition init_resets_a :: "(real, unit) path \<Rightarrow> real opts \<Rightarrow> (real, unit) path" where
  "init_resets_a p opts = p\<lparr>shape := Some [''a'' \<mapsto> 0]\<rparr>"

section \<open>Properties\<close>

lemmas op_defs = getBoundingRect_def updateCanvasGradient_def brushGradients_def
  brushGeometry_def brushPaint_def brushText_def brush_def contain_def
  pathHasFill_def pathHasStroke_def effectiveLineWidth_def inflate_def
  js_sub_def js_div_def getLineScale_def Let_def

lemmas demo_defs = demo_rect_def demo_env_def demo_style_def demo_path_def demo_world_def
  clip_world_def no_native_dash_def native_dash_def Path_new_def

subsection \<open>The line scale\<close>

text \<open>
  C2: the claim is that \<^verbatim>\<open>getLineScale\<close> returns 1 when the transform is absent or both
  \<open>a\<close> and \<open>d\<close> are within \<open>1e-10\<close> of 1, and \<open>sqrt |a * d - b * c|\<close> otherwise, which is
  what the comment in the function gives as the scale (the square root of the
  determinant). The code departs from it: its guard takes the square root only when both
  \<open>a\<close> and \<open>d\<close> are away from 1. On the transform \<open>a = 1\<close>, \<open>d = 4\<close>, \<open>b = c = 0\<close> it
  returns 1 where the claim gives 2, and its result jumps from 1 at \<open>a = 2\<close>, \<open>d = 1\<close> to
  \<open>sqrt (2 * (1 + 1e-9))\<close> at \<open>a = 2\<close>, \<open>d = 1 + 1e-9\<close>.
\<close>

theorem C2_getLineScale_failing_input:
  "getLineScale (Some (scale_matrix 1 4)) = 1
   \<and> getLineScale_spec (Some (scale_matrix 1 4)) = 2
   \<and> getLineScale (Some (scale_matrix 2 1)) = 1
   \<and> getLineScale (Some (scale_matrix 2 (1 + 1 / 10 ^ 9))) = sqrt (2 * (1 + 1 / 10 ^ 9))"
  by (simp add: getLineScale_def getLineScale_spec_def scale_matrix_def)

text \<open>Where the code and the claim agree: no transform, the identity, a uniform scale by 2.\<close>

lemma getLineScale_agrees:
  "getLineScale None = getLineScale_spec None
   \<and> getLineScale (Some identity_matrix) = 1
   \<and> getLineScale_spec (Some identity_matrix) = 1
   \<and> getLineScale (Some (scale_matrix 2 2)) = 2
   \<and> getLineScale_spec (Some (scale_matrix 2 2)) = 2"
  by (simp add: getLineScale_def getLineScale_spec_def identity_matrix_def scale_matrix_def)

lemma getLineScale_identity: "t = None \<or> t = Some identity_matrix \<Longrightarrow> getLineScale t = 1"
  by (auto simp add: getLineScale_def identity_matrix_def)

subsection \<open>getBoundingRect\<close>

text \<open>What \<^verbatim>\<open>getBoundingRect\<close> leaves alone, and the calls it makes.\<close>

lemma getBoundingRect_dirtyPath:
  "getBoundingRect env p = (r, evs, p') \<Longrightarrow> dirtyPath p' = dirtyPath p"
  by (auto simp add: getBoundingRect_def Let_def split: option.splits)

lemma getBoundingRect_style:
  "getBoundingRect env p = (r, evs, p') \<Longrightarrow> style p' = style p"
  by (auto simp add: getBoundingRect_def Let_def split: option.splits)

lemma getBoundingRect_transform:
  "getBoundingRect env p = (r, evs, p') \<Longrightarrow> transform p' = transform p"
  by (auto simp add: getBoundingRect_def Let_def split: option.splits)

lemma getBoundingRect_events:
  "getBoundingRect env p = (r, evs, p') \<Longrightarrow> set evs \<subseteq> {ProxyBeginPath False, BuildPath}"
  by (auto simp add: getBoundingRect_def Let_def split: option.splits if_splits)

lemma getBoundingRect_clean_events:
  "getBoundingRect env p = (r, evs, p') \<Longrightarrow> \<not> dirtyPath p \<Longrightarrow> evs = []"
  by (auto simp add: getBoundingRect_def Let_def split: option.splits if_splits)

text \<open>
  C5, as stated, fails on a cached rect. The element \<open>stale_path\<close> had its rect computed
  and cached under line width 1 (raw bounds of width 10, inflated by \<open>max 1 5 = 5\<close>); its
  line width was then set to 10. It is stroke-active with no transform, the raw bounds of
  its geometry still have width 10, and the statement promises the width
  \<open>10 + max 10 5 = 20\<close>; \<^verbatim>\<open>getBoundingRect\<close> returns the cached width 15.
\<close>

theorem C5_stroke_bounds_counterexample:
  "pathHasStroke (style stale_path) \<and> transform stale_path = None
   \<and> js_add (rect_width (proxyBoundingRect demo_env
                (path (snd (snd (getBoundingRect demo_env stale_path))))))
             (Fin (max (lineWidth (style stale_path)) 5)) = Fin 20
   \<and> rect_width (fst (getBoundingRect demo_env stale_path)) = Fin 15"
  by (simp add: stale_path_def op_defs demo_defs)

text \<open>
  C5, amended: for every stroke-active Path whose transform is absent or the identity and
  which has no cached rect, \<^verbatim>\<open>getBoundingRect()\<close> returns the raw bounds of the geometry
  (rebuilt first from the shape when the path is dirty) with width and height each
  increased by \<open>max(lineWidth, 5)\<close> and \<open>x\<close> and \<open>y\<close> each decreased by
  \<open>max(lineWidth, 5) / 2\<close>, and caches that rect.
\<close>

theorem C5_stroke_bounds_amended:
  assumes "pathHasStroke (style p)"
    and "transform p = None \<or> transform p = Some identity_matrix"
    and "rect_cache p = None"
    and "getBoundingRect env p = (r, evs, p')"
  shows "path p' = (if dirtyPath p
                    then buildPath env (shape p) (proxyBeginPath env False (path p))
                    else path p)
    \<and> rect_width r = js_add (rect_width (proxyBoundingRect env (path p')))
                         (Fin (max (lineWidth (style p)) 5))
    \<and> rect_height r = js_add (rect_height (proxyBoundingRect env (path p')))
                          (Fin (max (lineWidth (style p)) 5))
    \<and> rect_x r = js_sub (rect_x (proxyBoundingRect env (path p')))
                     (Fin (max (lineWidth (style p)) 5 / 2))
    \<and> rect_y r = js_sub (rect_y (proxyBoundingRect env (path p')))
                     (Fin (max (lineWidth (style p)) 5 / 2))
    \<and> rect_cache p' = Some r"
proof -
  have w: "effectiveLineWidth (style p) (transform p) = Fin (max (lineWidth (style p)) 5)"
    using assms(2) by (simp add: effectiveLineWidth_def getLineScale_identity js_div_def Let_def)
  show ?thesis
    using assms(1,3,4) w
    by (auto simp add: getBoundingRect_def inflate_def Let_def)
qed

text \<open>
  Witness of C5: the freshly constructed element, with line width 1 and raw bounds
  \<open>(0, 0, 10, 10)\<close>, gets the width 15 and the abscissa \<open>-2.5\<close>.
\<close>

theorem C5_stroke_bounds_witness:
  "rect_width (fst (getBoundingRect demo_env (demo_path demo_style))) = Fin 15
   \<and> rect_x (fst (getBoundingRect demo_env (demo_path demo_style))) = Fin (- 5 / 2)"
proof -
  obtain r evs p' where g: "getBoundingRect demo_env (demo_path demo_style) = (r, evs, p')"
    by (cases "getBoundingRect demo_env (demo_path demo_style)")
  have s: "pathHasStroke (style (demo_path demo_style))"
    by (simp add: pathHasStroke_def demo_defs)
  have t: "transform (demo_path demo_style) = None
           \<or> transform (demo_path demo_style) = Some identity_matrix"
    by (simp add: demo_defs)
  have c: "rect_cache (demo_path demo_style) = None"
    by (simp add: demo_defs)
  show ?thesis
    using C5_stroke_bounds_amended [OF s t c g] g
    by (simp add: demo_defs js_sub_def)
qed

subsection \<open>brush\<close>

text \<open>The phases of \<^verbatim>\<open>brush\<close>: what each leaves alone.\<close>

lemma updateCanvasGradient_dirtyPath:
  "updateCanvasGradient env slot p = (evs, p') \<Longrightarrow> dirtyPath p' = dirtyPath p"
  by (auto simp add: updateCanvasGradient_def split: if_splits prod.splits
           dest: getBoundingRect_dirtyPath)

lemma updateCanvasGradient_style:
  "updateCanvasGradient env slot p = (evs, p') \<Longrightarrow> style p' = style p"
  by (auto simp add: updateCanvasGradient_def split: if_splits prod.splits
           dest: getBoundingRect_style)

lemma brushGradients_dirtyPath:
  "brushGradients env p = (evs, p') \<Longrightarrow> dirtyPath p' = dirtyPath p"
  by (auto simp add: brushGradients_def Let_def split: if_splits prod.splits
           dest: updateCanvasGradient_dirtyPath)

lemma brushGradients_style:
  "brushGradients env p = (evs, p') \<Longrightarrow> style p' = style p"
  by (auto simp add: brushGradients_def Let_def split: if_splits prod.splits
           dest!: updateCanvasGradient_style)

lemma brushGeometry_clean:
  "brushGeometry env c p = (evs, p') \<Longrightarrow> \<not> dirtyPath p'"
  by (auto simp add: brushGeometry_def Let_def split: if_splits option.splits)

lemma brushGeometry_style:
  "brushGeometry env c p = (evs, p') \<Longrightarrow> style p' = style p"
  by (auto simp add: brushGeometry_def Let_def split: if_splits option.splits)

lemma brushText_dirtyPath:
  "brushText env p = (evs, p') \<Longrightarrow> dirtyPath p' = dirtyPath p"
  by (auto simp add: brushText_def split: if_splits prod.splits
           dest: getBoundingRect_dirtyPath)

lemma brush_clean:
  "brush env c p = (evs, p') \<Longrightarrow> \<not> dirtyPath p'"
  by (auto simp add: brush_def split: prod.splits
           dest: brushGeometry_clean brushText_dirtyPath)

lemma brush_style: "brush env c p = (evs, p') \<Longrightarrow> style p' = style p"
  by (auto simp add: brush_def brushText_def split: prod.splits if_splits
           dest!: brushGradients_style brushGeometry_style getBoundingRect_style)

text \<open>The calls each phase makes.\<close>

lemma precedesI:
  "a \<in> set xs \<Longrightarrow> b \<notin> set xs \<Longrightarrow> b \<in> set ys \<Longrightarrow> precedes a b (xs @ ys)"
proof -
  assume a: "a \<in> set xs" and b: "b \<notin> set xs" and c: "b \<in> set ys"
  have "takeWhile (\<lambda>e. e \<noteq> b) (xs @ ys) = xs @ takeWhile (\<lambda>e. e \<noteq> b) ys"
    by (rule takeWhile_append2) (use b in auto)
  then show ?thesis using a c by (simp add: precedes_def)
qed

lemma updateCanvasGradient_events:
  "updateCanvasGradient env slot p = (evs, p') \<Longrightarrow>
   UpdateCanvasGradient slot \<in> set evs
   \<and> set evs \<subseteq> {UpdateCanvasGradient slot, ProxyBeginPath False, BuildPath}"
proof -
  assume u: "updateCanvasGradient env slot p = (evs, p')"
  obtain r evs0 p0 where g: "getBoundingRect env p = (r, evs0, p0)"
    by (cases "getBoundingRect env p")
  have "evs = UpdateCanvasGradient slot # evs0 \<or> evs = [UpdateCanvasGradient slot]"
    using u g by (auto simp add: updateCanvasGradient_def split: if_splits)
  then show ?thesis
    using getBoundingRect_events [OF g] by auto
qed

lemma brushGradients_clean:
  "\<not> dirtyPath p \<Longrightarrow> brushGradients env p = ([], p)"
  by (simp add: brushGradients_def Let_def)

lemma brushGradients_no_rebuild:
  "brushGradients env p = (evs, p') \<Longrightarrow> ProxyBeginPath True \<notin> set evs"
  by (auto simp add: brushGradients_def Let_def split: if_splits prod.splits
           dest!: updateCanvasGradient_events)

lemma brushGradients_no_replay:
  "brushGradients env p = (evs, p') \<Longrightarrow> ProxyRebuildPath \<notin> set evs"
  by (auto simp add: brushGradients_def Let_def split: if_splits prod.splits
           dest!: updateCanvasGradient_events)

lemma brushGradients_fill:
  "brushGradients env p = (evs, p') \<Longrightarrow> dirtyPath p \<Longrightarrow> pathHasFill (style p) \<Longrightarrow>
   instanceofGradient (fill (style p)) \<Longrightarrow> UpdateCanvasGradient FillPaint \<in> set evs"
  by (auto simp add: brushGradients_def Let_def split: if_splits prod.splits
           dest!: updateCanvasGradient_events)

lemma brushGradients_stroke:
  "brushGradients env p = (evs, p') \<Longrightarrow> dirtyPath p \<Longrightarrow> pathHasStroke (style p) \<Longrightarrow>
   instanceofGradient (stroke (style p)) \<Longrightarrow> UpdateCanvasGradient StrokePaint \<in> set evs"
  by (auto simp add: brushGradients_def Let_def updateCanvasGradient_style
           split: if_splits prod.splits
           dest!: updateCanvasGradient_events)

lemma brushGeometry_dirty:
  "brushGeometry env c p = (evs, p') \<Longrightarrow> dirtyPath p \<Longrightarrow>
   ProxyBeginPath True \<in> set evs \<and> BuildPath \<in> set evs \<and> ProxyRebuildPath \<notin> set evs"
  by (auto simp add: brushGeometry_def Let_def split: if_splits option.splits)

lemma brushGeometry_clean_events:
  "brushGeometry env c p = (evs, p') \<Longrightarrow> \<not> dirtyPath p \<Longrightarrow>
   (if softwareDash c (style p)
    then BuildPath \<in> set evs \<and> ProxyRebuildPath \<notin> set evs
    else ProxyRebuildPath \<in> set evs \<and> BuildPath \<notin> set evs)"
  by (auto simp add: brushGeometry_def softwareDash_def Let_def split: if_splits option.splits)

lemma brushGeometry_no_gradient:
  "brushGeometry env c p = (evs, p') \<Longrightarrow> UpdateCanvasGradient slot \<notin> set evs"
  by (auto simp add: brushGeometry_def Let_def split: if_splits option.splits)

lemma brushPaint_no_gradient: "UpdateCanvasGradient slot \<notin> set (brushPaint c st)"
  by (auto simp add: brushPaint_def split: option.splits)

lemma brushPaint_events:
  "BuildPath \<notin> set (brushPaint c st) \<and> ProxyRebuildPath \<notin> set (brushPaint c st)"
  by (auto simp add: brushPaint_def split: option.splits)

lemma brushText_no_gradient:
  "brushText env p = (evs, p') \<Longrightarrow> UpdateCanvasGradient slot \<notin> set evs"
  by (auto simp add: brushText_def split: if_splits prod.splits dest!: getBoundingRect_events)

lemma brushText_events:
  "brushText env p = (evs, p') \<Longrightarrow> ProxyRebuildPath \<notin> set evs \<and> ProxyBeginPath True \<notin> set evs"
  by (auto simp add: brushText_def split: if_splits prod.splits dest!: getBoundingRect_events)

lemma brushText_clean_events:
  "brushText env p = (evs, p') \<Longrightarrow> \<not> dirtyPath p \<Longrightarrow> BuildPath \<notin> set evs"
  by (auto simp add: brushText_def split: if_splits prod.splits
           dest!: getBoundingRect_clean_events)

lemma brush_events:
  assumes "brushGradients env p = (evs1, p1)"
    and "brushGeometry env c p1 = (evs2, p2)"
    and "brushText env p2 = (evs3, p3)"
  shows "brush env c p =
           ((CtxSave # evs1 @ [StyleBind, SetTransform])
              @ (evs2 @ brushPaint c (style p) @ evs3 @ [CtxRestore]), p3)"
  using assms by (simp add: brush_def)

lemma brush_dirty_events:
  assumes "brush env c p = (evs, p')" and "dirtyPath p"
  shows "BuildPath \<in> set evs \<and> ProxyBeginPath True \<in> set evs \<and> ProxyRebuildPath \<notin> set evs"
proof -
  obtain evs1 p1 where g: "brushGradients env p = (evs1, p1)"
    by (cases "brushGradients env p")
  obtain evs2 p2 where b: "brushGeometry env c p1 = (evs2, p2)"
    by (cases "brushGeometry env c p1")
  obtain evs3 p3 where t: "brushText env p2 = (evs3, p3)"
    by (cases "brushText env p2")
  have d1: "dirtyPath p1"
    using brushGradients_dirtyPath [OF g] assms(2) by simp
  have "evs = (CtxSave # evs1 @ [StyleBind, SetTransform])
                 @ (evs2 @ brushPaint c (style p) @ evs3 @ [CtxRestore])"
    using brush_events [OF g b t] assms(1) by simp
  then show ?thesis
    using brushGeometry_dirty [OF b d1] brushGradients_no_replay [OF g]
      brushText_events [OF t] brushPaint_events [of c "style p"]
    by simp
qed

lemma brush_clean_events:
  assumes "brush env c p = (evs, p')" and "\<not> dirtyPath p"
  shows "if softwareDash c (style p)
         then BuildPath \<in> set evs \<and> ProxyRebuildPath \<notin> set evs
         else ProxyRebuildPath \<in> set evs \<and> BuildPath \<notin> set evs"
proof -
  have g: "brushGradients env p = ([], p)"
    using assms(2) by (rule brushGradients_clean)
  obtain evs2 p2 where b: "brushGeometry env c p = (evs2, p2)"
    by (cases "brushGeometry env c p")
  obtain evs3 p3 where t: "brushText env p2 = (evs3, p3)"
    by (cases "brushText env p2")
  have d2: "\<not> dirtyPath p2"
    using b by (rule brushGeometry_clean)
  have "evs = (CtxSave # [] @ [StyleBind, SetTransform])
                 @ (evs2 @ brushPaint c (style p) @ evs3 @ [CtxRestore])"
    using brush_events [OF g b t] assms(1) by simp
  then show ?thesis
    using brushGeometry_clean_events [OF b assms(2)] brushText_events [OF t]
      brushText_clean_events [OF t d2] brushPaint_events [of c "style p"]
    by (simp split: if_splits)
qed

text \<open>
  C3, as stated, fails on a cache-hit paint. The element with a gradient fill is painted
  once, which clears its dirty-path flag; the second \<^verbatim>\<open>brush\<close> has an active gradient
  fill, replays the recorded path, and never calls \<^verbatim>\<open>updateCanvasGradient\<close>.
\<close>

theorem C3_gradient_before_rebuild_counterexample:
  "pathHasFill (style (snd (brush demo_env native_dash (demo_path gradient_style))))
   \<and> instanceofGradient (fill (style (snd (brush demo_env native_dash (demo_path gradient_style)))))
   \<and> ProxyRebuildPath \<in> set (fst (brush demo_env native_dash
        (snd (brush demo_env native_dash (demo_path gradient_style)))))
   \<and> UpdateCanvasGradient FillPaint \<notin> set (fst (brush demo_env native_dash
        (snd (brush demo_env native_dash (demo_path gradient_style)))))"
  by (simp add: op_defs demo_defs gradient_style_def)

text \<open>
  C3, amended: in every invocation of \<^verbatim>\<open>brush\<close> on a Path whose dirty-path flag is set,
  if the active fill is a gradient then \<^verbatim>\<open>updateCanvasGradient\<close> is called on it before
  the rebuild branch begins (\<^verbatim>\<open>this.path.beginPath(ctx)\<close>), and likewise for an active
  gradient stroke; when the flag is not set, \<^verbatim>\<open>brush\<close> calls \<^verbatim>\<open>updateCanvasGradient\<close> on
  no paint.
\<close>

theorem C3_gradient_before_rebuild_amended:
  "(dirtyPath p \<and> pathHasFill (style p) \<and> instanceofGradient (fill (style p)) \<longrightarrow>
      precedes (UpdateCanvasGradient FillPaint) (ProxyBeginPath True) (fst (brush env c p)))
   \<and> (dirtyPath p \<and> pathHasStroke (style p) \<and> instanceofGradient (stroke (style p)) \<longrightarrow>
      precedes (UpdateCanvasGradient StrokePaint) (ProxyBeginPath True) (fst (brush env c p)))
   \<and> (\<not> dirtyPath p \<longrightarrow> UpdateCanvasGradient slot \<notin> set (fst (brush env c p)))"
proof -
  obtain evs1 p1 where g: "brushGradients env p = (evs1, p1)"
    by (cases "brushGradients env p")
  obtain evs2 p2 where b: "brushGeometry env c p1 = (evs2, p2)"
    by (cases "brushGeometry env c p1")
  obtain evs3 p3 where t: "brushText env p2 = (evs3, p3)"
    by (cases "brushText env p2")
  note ev = brush_events [OF g b t]
  have d1: "dirtyPath p1 = dirtyPath p"
    using g by (rule brushGradients_dirtyPath)
  have pre: "ProxyBeginPath True \<notin> set (CtxSave # evs1 @ [StyleBind, SetTransform])"
    using brushGradients_no_rebuild [OF g] by simp
  have post: "dirtyPath p \<Longrightarrow>
      ProxyBeginPath True \<in> set (evs2 @ brushPaint c (style p) @ evs3 @ [CtxRestore])"
    using brushGeometry_dirty [OF b] d1 by simp
  have fill_case: "precedes (UpdateCanvasGradient FillPaint) (ProxyBeginPath True)
                     (fst (brush env c p))"
    if "dirtyPath p" "pathHasFill (style p)" "instanceofGradient (fill (style p))"
  proof -
    have "UpdateCanvasGradient FillPaint \<in> set (CtxSave # evs1 @ [StyleBind, SetTransform])"
      using brushGradients_fill [OF g that] by simp
    then show ?thesis
      unfolding ev fst_conv using pre post [OF that(1)] by (rule precedesI)
  qed
  have stroke_case: "precedes (UpdateCanvasGradient StrokePaint) (ProxyBeginPath True)
                       (fst (brush env c p))"
    if "dirtyPath p" "pathHasStroke (style p)" "instanceofGradient (stroke (style p))"
  proof -
    have "UpdateCanvasGradient StrokePaint \<in> set (CtxSave # evs1 @ [StyleBind, SetTransform])"
      using brushGradients_stroke [OF g that] by simp
    then show ?thesis
      unfolding ev fst_conv using pre post [OF that(1)] by (rule precedesI)
  qed
  have clean_case: "UpdateCanvasGradient slot \<notin> set (fst (brush env c p))"
    if "\<not> dirtyPath p"
  proof -
    have "evs1 = []"
      using g brushGradients_clean [OF that, of env] by simp
    then show ?thesis
      unfolding ev fst_conv
      using brushGeometry_no_gradient [OF b, of slot] brushText_no_gradient [OF t, of slot]
        brushPaint_no_gradient [of slot c "style p"]
      by simp
  qed
  show ?thesis using fill_case stroke_case clean_case by blast
qed

text \<open>
  Witness of C3: the first paint of the element with a gradient fill resolves the
  gradient before it begins the rebuild; the second paint resolves nothing.
\<close>

theorem C3_gradient_before_rebuild_witness:
  "precedes (UpdateCanvasGradient FillPaint) (ProxyBeginPath True)
     (fst (brush demo_env native_dash (demo_path gradient_style)))
   \<and> UpdateCanvasGradient FillPaint \<notin> set (fst (brush demo_env native_dash
        (snd (brush demo_env native_dash (demo_path gradient_style)))))"
proof -
  have d: "dirtyPath (demo_path gradient_style)"
    by (simp add: demo_defs)
  have f: "pathHasFill (style (demo_path gradient_style))"
    by (simp add: pathHasFill_def demo_defs gradient_style_def)
  have g: "instanceofGradient (fill (style (demo_path gradient_style)))"
    by (simp add: demo_defs gradient_style_def)
  have c: "\<not> dirtyPath (snd (brush demo_env native_dash (demo_path gradient_style)))"
    by (simp add: op_defs demo_defs gradient_style_def)
  show ?thesis
    using C3_gradient_before_rebuild_amended
            [of "demo_path gradient_style" demo_env native_dash FillPaint]
          C3_gradient_before_rebuild_amended
            [of "snd (brush demo_env native_dash (demo_path gradient_style))" demo_env
                native_dash FillPaint]
          d f g c
    by blast
qed

subsection \<open>contain\<close>

text \<open>
  C6: for every Path with both fill and stroke active and every query point whose local
  image lies inside the bounding rect, \<^verbatim>\<open>contain(x, y)\<close> returns true if and only if the
  stroke-containment predicate, with the effective width
  \<open>max(lineWidth * scale, 5) / scale\<close>, or the fill-containment predicate holds at the
  local point; the stroke predicate is called first and the fill predicate only when the
  stroke predicate fails; a point that lies only within the stroke band returns true.
\<close>

theorem C6_contain_stroke_or_fill:
  assumes "pathHasFill (style p)" and "pathHasStroke (style p)"
    and "transformCoordToLocal env p x0 y0 = (lx, ly)"
    and "getBoundingRect env p = (r, evs, p1)"
    and "rectContain env r lx ly"
  shows "fst (contain env p x0 y0) =
           (containStroke env (path p1)
              (js_div (max (lineWidth (style p) * getLineScale (transform p)) 5)
                      (getLineScale (transform p))) lx ly
            \<or> containFill env (path p1) lx ly)
    \<and> fst (snd (contain env p x0 y0)) =
        evs @ (if containStroke env (path p1)
                    (js_div (max (lineWidth (style p) * getLineScale (transform p)) 5)
                            (getLineScale (transform p))) lx ly
               then [ContainStroke] else [ContainStroke, ContainFill])
    \<and> (containStroke env (path p1)
          (js_div (max (lineWidth (style p) * getLineScale (transform p)) 5)
                  (getLineScale (transform p))) lx ly
        \<and> \<not> containFill env (path p1) lx ly \<longrightarrow> fst (contain env p x0 y0))"
proof -
  have s: "style p1 = style p"
    using assms(4) by (rule getBoundingRect_style)
  have t: "transform p1 = transform p"
    using assms(4) by (rule getBoundingRect_transform)
  show ?thesis
    using assms
    by (simp add: contain_def s t effectiveLineWidth_def Let_def)
qed

text \<open>
  Witness of C6: on the concrete element every point is in the stroke band and none in
  the fill; \<^verbatim>\<open>contain(3, 4)\<close> is true and only the stroke predicate is called.
\<close>

theorem C6_contain_stroke_or_fill_witness:
  "fst (contain demo_env (demo_path demo_style) 3 4)
   \<and> fst (snd (contain demo_env (demo_path demo_style) 3 4))
       = [ProxyBeginPath False, BuildPath, ContainStroke]"
proof -
  have f: "pathHasFill (style (demo_path demo_style))"
    by (simp add: pathHasFill_def demo_defs)
  have s: "pathHasStroke (style (demo_path demo_style))"
    by (simp add: pathHasStroke_def demo_defs)
  have l: "transformCoordToLocal demo_env (demo_path demo_style) 3 4 = (3, 4)"
    by (simp add: demo_defs)
  obtain r p1 where g: "getBoundingRect demo_env (demo_path demo_style)
                          = (r, [ProxyBeginPath False, BuildPath], p1)"
    by (simp add: op_defs demo_defs)
  have c: "rectContain demo_env r 3 4"
    by (simp add: demo_defs)
  have k: "containStroke demo_env pp w lx ly \<and> \<not> containFill demo_env pp lx ly" for pp w lx ly
    by (simp add: demo_defs)
  show ?thesis
    using C6_contain_stroke_or_fill [OF f s l g c] k by simp
qed

lemma contain_dirtyPath:
  "contain env p x0 y0 = (b, evs, p') \<Longrightarrow> dirtyPath p' = dirtyPath p"
  by (auto simp add: contain_def Let_def split: if_splits prod.splits
           dest: getBoundingRect_dirtyPath)

subsection \<open>dirty\<close>

text \<open>The marking of one element.\<close>

lemma dirty_self_clipTarget:
  "clipTarget (heap (dirty_self w this a) q) = clipTarget (heap w q)"
  by (simp add: dirty_self_def Let_def)

lemma dirty_self_dirty_flag: "dirty_flag (heap (dirty_self w this a) this)"
  by (simp add: dirty_self_def Let_def)

lemma dirty_self_dirty_flag_mono:
  "dirty_flag (heap w q) \<Longrightarrow> dirty_flag (heap (dirty_self w this a) q)"
  by (simp add: dirty_self_def Let_def)

lemma dirty_self_geometry:
  "a \<noteq> Some False \<Longrightarrow>
   dirtyPath (heap (dirty_self w this a) this) \<and> rect_cache (heap (dirty_self w this a) this) = None"
  by (cases a) (auto simp add: dirty_self_def Let_def)

lemma dirty_self_geometry_mono:
  "dirtyPath (heap w q) \<and> rect_cache (heap w q) = None \<Longrightarrow>
   dirtyPath (heap (dirty_self w this a) q) \<and> rect_cache (heap (dirty_self w this a) q) = None"
  by (auto simp add: dirty_self_def Let_def split: option.splits)

lemma dirty_self_inv:
  "rect_only_if_clean (heap w q) \<Longrightarrow> rect_only_if_clean (heap (dirty_self w this a) q)"
  by (auto simp add: dirty_self_def Let_def rect_only_if_clean_def split: option.splits)

text \<open>The two ways a call of \<^verbatim>\<open>dirty\<close> that has a frame continues.\<close>

lemma dirty_unfold:
  "clipTarget (heap w this) = Some e \<Longrightarrow>
   dirty (Suc n) w this a = dirty n (dirty_self w this a) e None"
  by (simp add: Let_def dirty_self_clipTarget)

lemma dirty_unfold_end:
  "clipTarget (heap w this) = None \<Longrightarrow>
   dirty (Suc n) w this a = Returned () (dirty_self w this a)"
  by (simp add: Let_def dirty_self_clipTarget)

declare dirty.simps(2) [simp del]

text \<open>\<^verbatim>\<open>dirty\<close> only marks: it never clears a flag and never restores a rect.\<close>

lemma dirty_dirty_flag_mono:
  "dirty_flag (heap w q) \<Longrightarrow> dirty_flag (heap (world_of (dirty n w this a)) q)"
proof (induction n arbitrary: w this a)
  case 0
  then show ?case by simp
next
  case (Suc n)
  show ?case
  proof (cases "clipTarget (heap w this)")
    case None
    then show ?thesis
      using Suc.prems by (simp add: dirty_unfold_end dirty_self_dirty_flag_mono)
  next
    case (Some e)
    then show ?thesis
      using Suc.IH [OF dirty_self_dirty_flag_mono [OF Suc.prems]] by (simp add: dirty_unfold)
  qed
qed

lemma dirty_geometry_mono:
  "dirtyPath (heap w q) \<and> rect_cache (heap w q) = None \<Longrightarrow>
   dirtyPath (heap (world_of (dirty n w this a)) q)
   \<and> rect_cache (heap (world_of (dirty n w this a)) q) = None"
proof (induction n arbitrary: w this a)
  case 0
  then show ?case by simp
next
  case (Suc n)
  show ?case
  proof (cases "clipTarget (heap w this)")
    case None
    then show ?thesis
      using dirty_self_geometry_mono [OF Suc.prems] by (simp add: dirty_unfold_end)
  next
    case (Some e)
    then show ?thesis
      using Suc.IH [OF dirty_self_geometry_mono [OF Suc.prems]] by (simp add: dirty_unfold)
  qed
qed

lemma dirty_marks_dirty_flag: "dirty_flag (heap (world_of (dirty (Suc n) w this a)) this)"
proof (cases "clipTarget (heap w this)")
  case None
  then show ?thesis by (simp add: dirty_unfold_end dirty_self_dirty_flag)
next
  case (Some e)
  then show ?thesis
    using dirty_dirty_flag_mono [OF dirty_self_dirty_flag] by (simp add: dirty_unfold)
qed

lemma dirty_marks_geometry:
  assumes "a \<noteq> Some False"
  shows "dirtyPath (heap (world_of (dirty (Suc n) w this a)) this)
         \<and> rect_cache (heap (world_of (dirty (Suc n) w this a)) this) = None"
proof (cases "clipTarget (heap w this)")
  case None
  then show ?thesis using dirty_self_geometry [OF assms] by (simp add: dirty_unfold_end)
next
  case (Some e)
  then show ?thesis
    using dirty_geometry_mono [OF dirty_self_geometry [OF assms]] by (simp add: dirty_unfold)
qed

lemma dirty_inv:
  "(\<forall>q. rect_only_if_clean (heap w q)) \<Longrightarrow>
   rect_only_if_clean (heap (world_of (dirty n w this a)) q)"
proof (induction n arbitrary: w this a)
  case 0
  then show ?case by simp
next
  case (Suc n)
  have step: "\<forall>q. rect_only_if_clean (heap (dirty_self w this a) q)"
    using Suc.prems by (simp add: dirty_self_inv)
  show ?case
  proof (cases "clipTarget (heap w this)")
    case None
    then show ?thesis using step by (simp add: dirty_unfold_end)
  next
    case (Some e)
    then show ?thesis using Suc.IH [OF step] by (simp add: dirty_unfold)
  qed
qed

text \<open>The clip chain: \<^verbatim>\<open>dirty\<close> does not rewire it, and returns when it ends.\<close>

lemma clip_chain_ends_cong:
  "(\<And>q. clipTarget (h' q) = clipTarget (h q)) \<Longrightarrow>
   clip_chain_ends n h' this = clip_chain_ends n h this"
  by (induction n arbitrary: this) (auto split: option.splits)

lemma dirty_returns:
  "clip_chain_ends n (heap w) this \<Longrightarrow> \<exists>w'. dirty n w this a = Returned () w'"
proof (induction n arbitrary: w this a)
  case 0
  then show ?case by simp
next
  case (Suc n)
  show ?case
  proof (cases "clipTarget (heap w this)")
    case None
    then show ?thesis by (simp add: dirty_unfold_end)
  next
    case (Some e)
    then have "clip_chain_ends n (heap w) e" using Suc.prems by simp
    then have "clip_chain_ends n (heap (dirty_self w this a)) e"
      by (simp add: clip_chain_ends_cong [of "heap (dirty_self w this a)" "heap w"]
                    dirty_self_clipTarget)
    from Suc.IH [OF this] Some show ?thesis by (simp add: dirty_unfold)
  qed
qed

text \<open>
  C8: for every Path whose clip target is set to an element \<open>e\<close>, every call of
  \<^verbatim>\<open>dirty\<close> on the Path calls \<^verbatim>\<open>dirty\<close> on \<open>e\<close> (with no argument, in the world the
  Path's own marking leaves), and, the stack having room for that call, leaves the
  repaint-dirty flag of \<open>e\<close> set, whether the operation returns or the clip chain is
  cyclic and exhausts the stack; when the clip chain ends within the room the stack
  has, the operation returns.
\<close>

theorem C8_clip_target_dirty:
  assumes "clipTarget (heap w this) = Some e"
  shows "dirty (Suc n) w this a = dirty n (dirty_self w this a) e None
    \<and> dirty_flag (heap (world_of (dirty (Suc (Suc n)) w this a)) e)
    \<and> (clip_chain_ends (Suc n) (heap w) this \<longrightarrow>
         (\<exists>w'. dirty (Suc n) w this a = Returned () w'))"
proof -
  have "dirty (Suc (Suc n)) w this a = dirty (Suc n) (dirty_self w this a) e None"
    using assms by (rule dirty_unfold)
  then have "dirty_flag (heap (world_of (dirty (Suc (Suc n)) w this a)) e)"
    using dirty_marks_dirty_flag [of n "dirty_self w this a" e None] by simp
  then show ?thesis
    using dirty_unfold [OF assms] dirty_returns [of "Suc n" w this a] by blast
qed

text \<open>
  Witness of C8: element 0 clips element 1; \<^verbatim>\<open>dirty(false)\<close> on element 0 returns and
  leaves element 1 marked for repaint.
\<close>

theorem C8_clip_target_dirty_witness:
  "dirty_flag (heap (world_of (dirty 2 clip_world 0 (Some False))) 1)
   \<and> (\<exists>w'. dirty 2 clip_world 0 (Some False) = Returned () w')"
proof -
  have c: "clipTarget (heap clip_world 0) = Some 1"
    by (simp add: clip_world_def)
  have e: "clip_chain_ends (Suc (Suc 0)) (heap clip_world) 0"
    by (simp add: clip_world_def demo_defs)
  have n: "(2::nat) = Suc (Suc 0)" by simp
  show ?thesis
    using C8_clip_target_dirty [OF c, of 0 "Some False"]
          C8_clip_target_dirty [OF c, of "Suc 0" "Some False"] e
    unfolding n by blast
qed

subsection \<open>dirty on a clip target of any kind\<close>

text \<open>
  The writes to one Path are those of \<open>dirty_self\<close>, and on a scene of Paths
  \<open>dirty_in_scene\<close> is \<open>dirty\<close> (shown below, once the unfolding rules are there).
\<close>

lemma dirty_path_agrees:
  "heap (dirty_self w this a) this = dirty_path (heap w this) a"
  by (simp add: dirty_self_def dirty_path_def Let_def)

lemma dirty_path_clipTarget: "clipTarget (dirty_path p a) = clipTarget p"
  by (simp add: dirty_path_def Let_def)

lemma dirty_path_repaint_only:
  "dirtyPath (dirty_path p (Some False)) = dirtyPath p
   \<and> rect_cache (dirty_path p (Some False)) = rect_cache p"
  by (simp add: dirty_path_def Let_def)

lemma dirty_path_geometry:
  "a \<noteq> Some False \<Longrightarrow> dirtyPath (dirty_path p a) \<and> rect_cache (dirty_path p a) = None"
  by (cases a) (auto simp add: dirty_path_def Let_def)

lemma dirty_path_geometry_mono:
  "dirtyPath p \<and> rect_cache p = None \<Longrightarrow>
   dirtyPath (dirty_path p a) \<and> rect_cache (dirty_path p a) = None"
  by (auto simp add: dirty_path_def Let_def split: option.splits)

lemma dirty_path_in_other:
  "q \<noteq> this \<Longrightarrow> elements (dirty_path_in s this p a) q = elements s q"
  by (simp add: dirty_path_in_def)

lemma dirty_path_in_this:
  "elements (dirty_path_in s this p a) this = PathElement (dirty_path p a)"
  by (simp add: dirty_path_in_def)

lemma dirty_path_in_geometry_mono:
  "elements s this = PathElement p \<Longrightarrow> geometry_dirty (elements s q) \<Longrightarrow>
   geometry_dirty (elements (dirty_path_in s this p a) q)"
  by (cases "q = this") (auto simp add: dirty_path_in_def dirty_path_geometry_mono)

lemma dirty_path_in_clip_target:
  "elements s this = PathElement p \<Longrightarrow>
   clip_target_of (elements (dirty_path_in s this p a) q) = clip_target_of (elements s q)"
  by (cases "q = this") (auto simp add: dirty_path_in_def dirty_path_clipTarget)

text \<open>The ways a call of \<^verbatim>\<open>dirty\<close> in a scene continues.\<close>

lemma dirty_in_scene_path:
  "elements s this = PathElement p \<Longrightarrow> clipTarget p = Some e \<Longrightarrow>
   dirty_in_scene od (Suc n) s this a = dirty_in_scene od n (dirty_path_in s this p a) e None"
  by (simp add: dirty_path_clipTarget)

lemma dirty_in_scene_path_end:
  "elements s this = PathElement p \<Longrightarrow> clipTarget p = None \<Longrightarrow>
   dirty_in_scene od (Suc n) s this a = Returned () (dirty_path_in s this p a)"
  by (simp add: dirty_path_clipTarget)

lemma dirty_in_scene_other:
  "elements s this = OtherElement x \<Longrightarrow>
   dirty_in_scene od (Suc n) s this a =
     Returned () (s\<lparr>elements := (elements s)(this := OtherElement (od a x))\<rparr>)"
  by simp

declare dirty_in_scene.simps(2) [simp del]

text \<open>A geometry-dirty Path stays so, and \<^verbatim>\<open>dirty\<close> stays on the clip chain.\<close>

lemma dirty_in_scene_geometry_mono:
  "geometry_dirty (elements s q) \<Longrightarrow>
   geometry_dirty (elements (world_of (dirty_in_scene od n s this a)) q)"
proof (induction n arbitrary: s this a)
  case 0
  then show ?case by simp
next
  case (Suc n)
  show ?case
  proof (cases "elements s this")
    case (OtherElement x)
    then have "q \<noteq> this" using Suc.prems by auto
    then show ?thesis using Suc.prems OtherElement by (simp add: dirty_in_scene_other)
  next
    case (PathElement p)
    note g = dirty_path_in_geometry_mono [OF PathElement Suc.prems, of a]
    show ?thesis
    proof (cases "clipTarget p")
      case None
      then show ?thesis using g PathElement by (simp add: dirty_in_scene_path_end)
    next
      case (Some e)
      then show ?thesis using Suc.IH [OF g] PathElement by (simp add: dirty_in_scene_path)
    qed
  qed
qed

lemma dirty_in_scene_marks_geometry:
  assumes "elements s this = PathElement p" and "a \<noteq> Some False"
  shows "geometry_dirty (elements (world_of (dirty_in_scene od (Suc n) s this a)) this)"
proof -
  have g: "geometry_dirty (elements (dirty_path_in s this p a) this)"
    using dirty_path_geometry [OF assms(2), of p] by (simp add: dirty_path_in_this)
  show ?thesis
  proof (cases "clipTarget p")
    case None
    then show ?thesis using g assms(1) by (simp add: dirty_in_scene_path_end)
  next
    case (Some e)
    then show ?thesis
      using dirty_in_scene_geometry_mono [OF g] assms(1) by (simp add: dirty_in_scene_path)
  qed
qed

lemma on_scene_clip_chain_cong:
  "(\<And>q. clip_target_of (h' q) = clip_target_of (h q)) \<Longrightarrow>
   on_scene_clip_chain n h' this r = on_scene_clip_chain n h this r"
  by (induction n arbitrary: this) (auto split: option.splits)

lemma dirty_in_scene_off_chain:
  "\<not> on_scene_clip_chain n (elements s) this q \<Longrightarrow>
   elements (world_of (dirty_in_scene od n s this a)) q = elements s q"
proof (induction n arbitrary: s this a)
  case 0
  then show ?case by simp
next
  case (Suc n)
  from Suc.prems have ne: "q \<noteq> this" by auto
  show ?case
  proof (cases "elements s this")
    case (OtherElement x)
    then show ?thesis using ne by (simp add: dirty_in_scene_other)
  next
    case (PathElement p)
    show ?thesis
    proof (cases "clipTarget p")
      case None
      then show ?thesis
        using ne PathElement by (simp add: dirty_in_scene_path_end dirty_path_in_other)
    next
      case (Some e)
      then have "\<not> on_scene_clip_chain n (elements s) e q"
        using Suc.prems PathElement by simp
      then have "\<not> on_scene_clip_chain n (elements (dirty_path_in s this p a)) e q"
        by (simp add: on_scene_clip_chain_cong
                        [of "elements (dirty_path_in s this p a)" "elements s"]
                      dirty_path_in_clip_target [OF PathElement])
      from Suc.IH [OF this] Some ne PathElement show ?thesis
        by (simp add: dirty_in_scene_path dirty_path_in_other)
    qed
  qed
qed

text \<open>
  C10, amended: for every Path whose clip target is set to an element \<open>e\<close>,
  \<^verbatim>\<open>dirty(false)\<close> leaves the Path's own dirty-path flag and cached rect as they were and
  still calls \<^verbatim>\<open>dirty\<close> on \<open>e\<close> with no argument (the flag \<^verbatim>\<open>false\<close> is not passed
  on); when \<open>e\<close> is itself a Path that call is a full geometry-dirty marking, so the
  dirty-path flag of \<open>e\<close> is set and its cached rect is cleared. The Path's own flag
  and rect are also untouched in the final scene when the Path is not itself on the clip
  chain of \<open>e\<close>.
\<close>

theorem C10_clip_target_full_dirty_amended:
  assumes "elements s this = PathElement p" and "clipTarget p = Some e"
  shows "dirty_in_scene od (Suc n) s this (Some False)
           = dirty_in_scene od n (dirty_path_in s this p (Some False)) e None
    \<and> dirtyPath (dirty_path p (Some False)) = dirtyPath p
    \<and> rect_cache (dirty_path p (Some False)) = rect_cache p
    \<and> ((\<exists>q. elements s e = PathElement q) \<longrightarrow>
         (\<exists>q'. elements (world_of (dirty_in_scene od (Suc (Suc n)) s this (Some False))) e
                  = PathElement q'
               \<and> dirtyPath q' \<and> rect_cache q' = None))
    \<and> (\<not> on_scene_clip_chain n (elements s) e this \<longrightarrow>
         elements (world_of (dirty_in_scene od (Suc n) s this (Some False))) this
           = PathElement (dirty_path p (Some False)))"
proof -
  let ?s1 = "dirty_path_in s this p (Some False)"
  have u: "dirty_in_scene od (Suc m) s this (Some False) = dirty_in_scene od m ?s1 e None" for m
    using assms by (rule dirty_in_scene_path)
  have g: "\<exists>q'. elements (world_of (dirty_in_scene od (Suc (Suc n)) s this (Some False))) e
                  = PathElement q' \<and> dirtyPath q' \<and> rect_cache q' = None"
    if "elements s e = PathElement q" for q
  proof -
    have "\<exists>q1. elements ?s1 e = PathElement q1"
      using that by (cases "e = this") (simp_all add: dirty_path_in_def)
    then obtain q1 where q1: "elements ?s1 e = PathElement q1" ..
    have "geometry_dirty (elements (world_of (dirty_in_scene od (Suc n) ?s1 e None)) e)"
      using q1 by (rule dirty_in_scene_marks_geometry) simp
    then show ?thesis
      unfolding u
      by (cases "elements (world_of (dirty_in_scene od (Suc n) ?s1 e None)) e") auto
  qed
  have off: "elements (world_of (dirty_in_scene od (Suc n) s this (Some False))) this
               = PathElement (dirty_path p (Some False))"
    if "\<not> on_scene_clip_chain n (elements s) e this"
  proof -
    have "\<not> on_scene_clip_chain n (elements ?s1) e this"
      using that
      by (simp add: on_scene_clip_chain_cong [of "elements ?s1" "elements s"]
                    dirty_path_in_clip_target [OF assms(1)])
    then have "elements (world_of (dirty_in_scene od n ?s1 e None)) this = elements ?s1 this"
      by (rule dirty_in_scene_off_chain)
    then show ?thesis unfolding u by (simp add: dirty_path_in_this)
  qed
  show ?thesis
    using u [of n] g off dirty_path_repaint_only [of p] by blast
qed

text \<open>On a scene of Paths, \<^verbatim>\<open>dirty\<close> is the \<open>dirty\<close> of the heap of Paths.\<close>

lemma scene_of_dirty_self:
  "scene_of (dirty_self w this a) = dirty_path_in (scene_of w) this (heap w this) a"
  by (simp add: scene_of_def dirty_self_def dirty_path_in_def dirty_path_def Let_def fun_eq_iff)

lemma dirty_in_scene_of_world:
  "dirty_in_scene od n (scene_of w) this a = outcome_in_scene (dirty n w this a)"
proof (induction n arbitrary: w this a)
  case 0
  then show ?case by simp
next
  case (Suc n)
  have el: "elements (scene_of w) this = PathElement (heap w this)"
    by (simp add: scene_of_def)
  show ?case
  proof (cases "clipTarget (heap w this)")
    case None
    then show ?thesis
      using dirty_in_scene_path_end [OF el None, of od n a]
      by (simp add: dirty_unfold_end scene_of_dirty_self)
  next
    case (Some e)
    then show ?thesis
      using dirty_in_scene_path [OF el Some, of od n a]
        Suc.IH [of "dirty_self w this a" e None]
      by (simp add: dirty_unfold scene_of_dirty_self)
  qed
qed

lemmas scene_defs = clean_clip_path_def mark_repaint_def other_target_scene_def
  path_target_scene_def dirty_path_in_def dirty_path_def

text \<open>
  C10, as stated, fails when the clip target is not a Path. Element 0 is a Path and the
  clip path of element 1, which is of another kind. \<^verbatim>\<open>dirty(false)\<close> on element 0 marks
  it for repaint and calls \<^verbatim>\<open>dirty()\<close> on element 1, which runs the method of that kind;
  element 1 has no dirty-path flag afterwards, so none is set.
\<close>

theorem C10_clip_target_full_dirty_counterexample:
  "elements other_target_scene 0 = PathElement clean_clip_path
   \<and> clipTarget clean_clip_path = Some 1
   \<and> dirty_in_scene mark_repaint 2 other_target_scene 0 (Some False)
       = Returned ()
           \<lparr>elements = (\<lambda>this. if this = 0
                                 then PathElement (clean_clip_path\<lparr>dirty_flag := True\<rparr>)
                                 else if this = 1 then OtherElement True
                                 else OtherElement False),
            calls = []\<rparr>
   \<and> element_dirtyPath (elements (world_of
         (dirty_in_scene mark_repaint 2 other_target_scene 0 (Some False))) 1) = None"
proof -
  have n: "(2::nat) = Suc (Suc 0)" by simp
  have p: "elements other_target_scene 0 = PathElement clean_clip_path"
    by (simp add: other_target_scene_def)
  have c: "clipTarget clean_clip_path = Some 1"
    by (simp add: clean_clip_path_def)
  have r: "dirty_in_scene mark_repaint 2 other_target_scene 0 (Some False)
       = Returned ()
           \<lparr>elements = (\<lambda>this. if this = 0
                                 then PathElement (clean_clip_path\<lparr>dirty_flag := True\<rparr>)
                                 else if this = 1 then OtherElement True
                                 else OtherElement False),
            calls = []\<rparr>"
    unfolding n
    by (simp add: dirty_in_scene.simps scene_defs demo_defs Let_def fun_eq_iff)
  show ?thesis using p c r by simp
qed

text \<open>
  Witness of C10: both elements are clean Paths with a cached rect. After
  \<^verbatim>\<open>dirty(false)\<close> on element 0, element 1 is geometry-dirty with no rect, and element 0
  is marked for repaint with its dirty-path flag still clear and its rect still cached.
\<close>

theorem C10_clip_target_full_dirty_witness:
  "element_dirtyPath (elements path_target_scene 1) = Some False
   \<and> (\<exists>q'. elements (world_of
           (dirty_in_scene mark_repaint 2 path_target_scene 0 (Some False))) 1 = PathElement q'
         \<and> dirtyPath q' \<and> rect_cache q' = None)
   \<and> (\<exists>p'. elements (world_of
           (dirty_in_scene mark_repaint 2 path_target_scene 0 (Some False))) 0 = PathElement p'
         \<and> \<not> dirtyPath p' \<and> rect_cache p' = Some demo_rect \<and> dirty_flag p')"
proof -
  have n: "(2::nat) = Suc (Suc 0)" by simp
  have p: "elements path_target_scene 0 = PathElement clean_clip_path"
    by (simp add: path_target_scene_def)
  have c: "clipTarget clean_clip_path = Some 1"
    by (simp add: clean_clip_path_def)
  have e: "\<exists>q. elements path_target_scene 1 = PathElement q"
    by (simp add: path_target_scene_def)
  have o: "\<not> on_scene_clip_chain (Suc 0) (elements path_target_scene) 1 0"
    by (simp add: path_target_scene_def demo_defs)
  have d: "element_dirtyPath (elements path_target_scene 1) = Some False"
    by (simp add: path_target_scene_def)
  have k: "\<not> dirtyPath (dirty_path clean_clip_path (Some False))
           \<and> rect_cache (dirty_path clean_clip_path (Some False)) = Some demo_rect
           \<and> dirty_flag (dirty_path clean_clip_path (Some False))"
    by (simp add: dirty_path_def clean_clip_path_def Let_def)
  have g1: "\<exists>q'. elements (world_of
                (dirty_in_scene mark_repaint (Suc (Suc 0)) path_target_scene 0 (Some False))) 1
              = PathElement q' \<and> dirtyPath q' \<and> rect_cache q' = None"
    using C10_clip_target_full_dirty_amended [OF p c, of mark_repaint 0] e by blast
  have "elements (world_of
          (dirty_in_scene mark_repaint (Suc (Suc 0)) path_target_scene 0 (Some False))) 0
        = PathElement (dirty_path clean_clip_path (Some False))"
    using C10_clip_target_full_dirty_amended [OF p c, of mark_repaint "Suc 0"] o by blast
  with k have g0: "\<exists>p'. elements (world_of
                (dirty_in_scene mark_repaint (Suc (Suc 0)) path_target_scene 0 (Some False))) 0
              = PathElement p' \<and> \<not> dirtyPath p' \<and> rect_cache p' = Some demo_rect
                \<and> dirty_flag p'"
    by blast
  show ?thesis
    unfolding n using d g1 g0 by blast
qed

subsection \<open>Rebuild and replay\<close>

text \<open>
  C4, as stated, fails when the dash pattern has to be drawn in software. The element has
  an active stroke and the dash pattern \<open>[5, 5]\<close>, and the context has no
  \<^verbatim>\<open>setLineDash\<close>. After \<^verbatim>\<open>dirty(true)\<close> and a first \<^verbatim>\<open>brush\<close>, the second \<^verbatim>\<open>brush\<close>
  calls \<^verbatim>\<open>buildPath\<close> again and replays nothing.
\<close>

theorem C4_rebuild_then_replay_counterexample:
  "BuildPath \<in> set (fst (brush demo_env no_native_dash
      (snd (brush demo_env no_native_dash (marked_dirty dashed_style)))))
   \<and> ProxyRebuildPath \<notin> set (fst (brush demo_env no_native_dash
      (snd (brush demo_env no_native_dash (marked_dirty dashed_style)))))"
  by (simp add: marked_dirty_def dashed_style_def dirty.simps dirty_self_def op_defs demo_defs)

text \<open>
  C4, amended: after any sequence of shape mutations, marking the path geometry-dirty
  (\<^verbatim>\<open>dirty()\<close> or \<^verbatim>\<open>dirty(true)\<close>) and two consecutive calls of \<^verbatim>\<open>brush\<close> with no
  intervening mutation, the first call rebuilds the geometry buffer (it calls
  \<^verbatim>\<open>buildPath\<close>, replays nothing and clears the dirty-path flag), and the second call
  replays the recorded buffer without calling \<^verbatim>\<open>buildPath\<close>, unless a dash pattern is
  set, the stroke is active and the context has no \<^verbatim>\<open>setLineDash\<close>: then the second call
  rebuilds again and replays nothing.
\<close>

theorem C4_rebuild_then_replay_amended:
  assumes "a \<noteq> Some False"
    and "p = heap (world_of (dirty (Suc n) w this a)) this"
    and "brush env c p = (evs1, p1)"
    and "brush env c p1 = (evs2, p2)"
  shows "BuildPath \<in> set evs1 \<and> ProxyBeginPath True \<in> set evs1
    \<and> ProxyRebuildPath \<notin> set evs1 \<and> \<not> dirtyPath p1
    \<and> (\<not> softwareDash c (style p) \<longrightarrow>
          ProxyRebuildPath \<in> set evs2 \<and> BuildPath \<notin> set evs2)
    \<and> (softwareDash c (style p) \<longrightarrow>
          BuildPath \<in> set evs2 \<and> ProxyRebuildPath \<notin> set evs2)"
proof -
  have d: "dirtyPath p"
    using dirty_marks_geometry [OF assms(1), of n w this] assms(2) by simp
  have c1: "\<not> dirtyPath p1"
    using assms(3) by (rule brush_clean)
  have s1: "style p1 = style p"
    using assms(3) by (rule brush_style)
  show ?thesis
    using brush_dirty_events [OF assms(3) d] c1 brush_clean_events [OF assms(4) c1] s1
    by (simp split: if_splits)
qed

text \<open>
  Witness of C4: the dashed element, marked dirty, painted twice on a context with
  \<^verbatim>\<open>setLineDash\<close> (rebuild, then replay) and twice on one without (rebuild twice).
\<close>

theorem C4_rebuild_then_replay_witness:
  "BuildPath \<in> set (fst (brush demo_env native_dash (marked_dirty dashed_style)))
   \<and> ProxyRebuildPath \<in> set (fst (brush demo_env native_dash
      (snd (brush demo_env native_dash (marked_dirty dashed_style)))))
   \<and> BuildPath \<notin> set (fst (brush demo_env native_dash
      (snd (brush demo_env native_dash (marked_dirty dashed_style)))))
   \<and> BuildPath \<in> set (fst (brush demo_env no_native_dash
      (snd (brush demo_env no_native_dash (marked_dirty dashed_style)))))"
proof -
  have a: "Some True \<noteq> Some False" by simp
  have m: "marked_dirty dashed_style
             = heap (world_of (dirty (Suc 0) (demo_world dashed_style) 0 (Some True))) 0"
    by (simp add: marked_dirty_def)
  have st: "style (marked_dirty dashed_style) = dashed_style"
    by (simp add: marked_dirty_def dirty.simps dirty_self_def Let_def demo_defs)
  have n: "\<not> softwareDash native_dash (style (marked_dirty dashed_style))"
    unfolding st by (simp add: softwareDash_def native_dash_def)
  have s: "softwareDash no_native_dash (style (marked_dirty dashed_style))"
    unfolding st
    by (simp add: softwareDash_def no_native_dash_def dashed_style_def demo_style_def
                  pathHasStroke_def)
  define q1 where "q1 = snd (brush demo_env native_dash (marked_dirty dashed_style))"
  define q2 where "q2 = snd (brush demo_env no_native_dash (marked_dirty dashed_style))"
  have b1: "brush demo_env native_dash (marked_dirty dashed_style)
              = (fst (brush demo_env native_dash (marked_dirty dashed_style)), q1)"
    by (simp add: q1_def)
  have b2: "brush demo_env no_native_dash (marked_dirty dashed_style)
              = (fst (brush demo_env no_native_dash (marked_dirty dashed_style)), q2)"
    by (simp add: q2_def)
  have c1: "brush demo_env native_dash q1
              = (fst (brush demo_env native_dash q1), snd (brush demo_env native_dash q1))"
    by simp
  have c2: "brush demo_env no_native_dash q2
              = (fst (brush demo_env no_native_dash q2), snd (brush demo_env no_native_dash q2))"
    by simp
  show ?thesis
    using C4_rebuild_then_replay_amended [OF a m b1 c1]
          C4_rebuild_then_replay_amended [OF a m b2 c2] n s
    unfolding q1_def q2_def by blast
qed

subsection \<open>setShape\<close>

text \<open>
  C9: for every Path whose shape is absent and every argument, \<^verbatim>\<open>setShape\<close> returns the
  element itself and leaves the world as it was: no field of any element changes (shape,
  style, dirty-path flag, dirty flag and cached rect among them) and no call is logged,
  so no refresh is requested.
\<close>

theorem C9_setShape_without_shape:
  "shape (heap w this) = None \<Longrightarrow> setShape n w this arg = Returned this w"
  by (simp add: setShape_def)

text \<open>Witness of C9: both forms of the call on an element constructed without a shape.\<close>

theorem C9_setShape_without_shape_witness:
  "setShape 0 shapeless_world 0 (KeyArg ''r'' 3) = Returned 0 shapeless_world
   \<and> setShape 5 shapeless_world 0 (ObjectArg [(''r'', 3)]) = Returned 0 shapeless_world"
proof -
  have "shape (heap shapeless_world 0) = None"
    by (simp add: shapeless_world_def Path_new_def)
  then show ?thesis
    using C9_setShape_without_shape [of shapeless_world 0] by simp
qed

lemma setShape_inv:
  assumes "\<forall>q. rect_only_if_clean (heap w q)"
  shows "rect_only_if_clean (heap (world_of (setShape n w this arg)) q)"
proof (cases "shape (heap w this)")
  case None
  then show ?thesis using assms by (simp add: setShape_def)
next
  case (Some sh)
  define sh' where "sh' = (case arg of
                       ObjectArg kvs \<Rightarrow> fold (\<lambda>(name, v) s. s(name \<mapsto> v)) kvs sh
                     | KeyArg k v \<Rightarrow> sh(k \<mapsto> v))"
  define w1 where "w1 = w\<lparr>heap := (heap w)(this := (heap w this)\<lparr>shape := Some sh'\<rparr>)\<rparr>"
  have "\<forall>q. rect_only_if_clean (heap w1 q)"
    using assms by (simp add: w1_def rect_only_if_clean_def)
  then have "rect_only_if_clean (heap (world_of (dirty n w1 this (Some True))) q)"
    by (rule dirty_inv)
  moreover have "world_of (setShape n w this arg) = world_of (dirty n w1 this (Some True))"
    using Some by (simp add: setShape_def Let_def sh'_def w1_def split: outcome.splits)
  ultimately show ?thesis by simp
qed

subsection \<open>The cached rect and the dirty-path flag\<close>

text \<open>
  C1, as stated, fails: \<^verbatim>\<open>getBoundingRect\<close> on a newly constructed element rebuilds the
  geometry and caches the rect, and does not clear the dirty-path flag.
\<close>

theorem C1_rect_only_if_clean_counterexample:
  "reachable demo_env (\<lambda>p. True) (getBoundingRect_at demo_env (demo_world demo_style) 0)
   \<and> rect_cache (heap (getBoundingRect_at demo_env (demo_world demo_style) 0) 0) \<noteq> None
   \<and> dirtyPath (heap (getBoundingRect_at demo_env (demo_world demo_style) 0) 0)"
proof -
  have "constructed (demo_world demo_style)"
    by (simp add: constructed_def demo_defs)
  then have "reachable demo_env (\<lambda>p. True) (demo_world demo_style)"
    by (rule r_construct)
  then have "reachable demo_env (\<lambda>p. True) (getBoundingRect_at demo_env (demo_world demo_style) 0)"
    by (rule r_getBoundingRect) simp
  moreover have "rect_cache (heap (getBoundingRect_at demo_env (demo_world demo_style) 0) 0) \<noteq> None"
    by (simp add: getBoundingRect_at_def op_defs demo_defs)
  moreover have "dirtyPath (heap (getBoundingRect_at demo_env (demo_world demo_style) 0) 0)"
    by (simp add: getBoundingRect_at_def op_defs demo_defs)
  ultimately show ?thesis by simp
qed

text \<open>
  C1, amended: in every world reachable from construction by \<^verbatim>\<open>brush\<close>, \<^verbatim>\<open>setShape\<close> and
  \<^verbatim>\<open>dirty\<close>, and by \<^verbatim>\<open>getBoundingRect\<close> and \<^verbatim>\<open>contain\<close> called only on elements whose
  dirty-path flag is clear, the cached rect of every element is non-null only if its
  dirty-path flag is false.
\<close>

theorem C1_rect_only_if_clean_amended:
  "reachable env (\<lambda>p. \<not> dirtyPath p) w \<Longrightarrow> rect_only_if_clean (heap w this)"
proof (induction arbitrary: this rule: reachable.induct)
  case (r_construct w)
  then show ?case by (simp add: constructed_def rect_only_if_clean_def)
next
  case (r_brush w c that)
  then show ?case
    by (auto simp add: brush_at_def rect_only_if_clean_def split: prod.splits dest: brush_clean)
next
  case (r_getBoundingRect w that)
  then show ?case
    by (auto simp add: getBoundingRect_at_def rect_only_if_clean_def split: prod.splits
             dest: getBoundingRect_dirtyPath)
next
  case (r_contain w that x0 y0)
  then show ?case
    by (auto simp add: contain_at_def rect_only_if_clean_def split: prod.splits
             dest: contain_dirtyPath)
next
  case (r_setShape w n that arg)
  then show ?case by (simp add: setShape_inv)
next
  case (r_dirty w n that a)
  then show ?case by (simp add: dirty_inv)
qed

text \<open>
  Witness of C1: the element is painted, which clears its flag, and then asked for its
  bounding rect; the rect is cached and the flag is clear.
\<close>

theorem C1_rect_only_if_clean_witness:
  "rect_cache (heap (getBoundingRect_at demo_env
      (brush_at demo_env native_dash (demo_world demo_style) 0) 0) 0) \<noteq> None
   \<and> \<not> dirtyPath (heap (getBoundingRect_at demo_env
      (brush_at demo_env native_dash (demo_world demo_style) 0) 0) 0)"
proof -
  let ?w1 = "brush_at demo_env native_dash (demo_world demo_style) 0"
  have "constructed (demo_world demo_style)"
    by (simp add: constructed_def demo_defs)
  then have "reachable demo_env (\<lambda>p. \<not> dirtyPath p) (demo_world demo_style)"
    by (rule r_construct)
  then have r1: "reachable demo_env (\<lambda>p. \<not> dirtyPath p) ?w1"
    by (rule r_brush)
  have "\<not> dirtyPath (heap ?w1 0)"
    by (simp add: brush_at_def op_defs demo_defs)
  with r1 have "reachable demo_env (\<lambda>p. \<not> dirtyPath p) (getBoundingRect_at demo_env ?w1 0)"
    by (rule r_getBoundingRect)
  then have "rect_only_if_clean (heap (getBoundingRect_at demo_env ?w1 0) 0)"
    by (rule C1_rect_only_if_clean_amended)
  moreover have "rect_cache (heap (getBoundingRect_at demo_env ?w1 0) 0) \<noteq> None"
    by (simp add: getBoundingRect_at_def brush_at_def op_defs demo_defs)
  ultimately show ?thesis by (simp add: rect_only_if_clean_def)
qed

subsection \<open>Path.extend\<close>

lemma extendShape_lookup:
  "extendShape ds names sh name =
     (case sh name of
        Some v \<Rightarrow> Some v
      | None \<Rightarrow> if name \<in> set names then map_of ds name else None)"
  by (induction names arbitrary: sh) (auto split: option.splits)

lemma extendShape_merged:
  "extendShape ds (map fst ds) (case given of None \<Rightarrow> Map.empty | Some sh \<Rightarrow> sh)
     = merged_shape ds given"
proof
  fix name
  have "name \<notin> set (map fst ds) \<Longrightarrow> map_of ds name = None"
    by (simp add: map_of_eq_None_iff)
  then show "extendShape ds (map fst ds) (case given of None \<Rightarrow> Map.empty | Some sh \<Rightarrow> sh) name
        = merged_shape ds given name"
    by (cases given) (auto simp add: extendShape_lookup merged_shape_def split: option.splits)
qed

text \<open>
  C7, as stated, fails when the extension has an \<^verbatim>\<open>init\<close> hook that writes the shape:
  the hook runs last in the constructor. With the default shape \<^verbatim>\<open>{a: 1}\<close>, the
  construction options \<^verbatim>\<open>{shape: {a: 5}}\<close> and a hook that sets \<^verbatim>\<open>this.shape = {a: 0}\<close>,
  the instance ends construction with \<^verbatim>\<open>shape.a === 0\<close>.
\<close>

theorem C7_default_shape_counterexample:
  "d_shape (a1_defaults\<lparr>d_init := Some init_resets_a\<rparr>) = Some [(''a'', 1)]
   \<and> o_shape a5_opts = Some [''a'' \<mapsto> 5]
   \<and> shape (Sub demo_env (a1_defaults\<lparr>d_init := Some init_resets_a\<rparr>) a5_opts)
       = Some [''a'' \<mapsto> 0]"
  by (simp add: a1_defaults_def a5_opts_def init_resets_a_def Sub_def Sub_defaults_def Let_def)

text \<open>
  C7, amended: for every extension definition with a default shape and every construction
  options, the instance reaches the \<^verbatim>\<open>init\<close> hook with each shape key taking the value of
  the construction options when they supply the key and the default value only when they
  do not; the constructor then returns what the hook leaves, and without a hook this is
  the shape at the end of construction. So \<^verbatim>\<open>extend({shape: {a: 1}})\<close> constructed with
  \<^verbatim>\<open>{shape: {a: 5}}\<close> yields \<^verbatim>\<open>shape.a === 5\<close>.
\<close>

theorem C7_default_shape_amended:
  assumes "d_shape defaults = Some defaultShape"
  shows "shape (Sub_defaults env defaults opts) = Some (merged_shape defaultShape (o_shape opts))
    \<and> Sub env defaults opts =
        (case d_init defaults of
           None \<Rightarrow> Sub_defaults env defaults opts
         | Some init \<Rightarrow> init (Sub_defaults env defaults opts) opts)
    \<and> (d_init defaults = None \<longrightarrow>
         shape (Sub env defaults opts) = Some (merged_shape defaultShape (o_shape opts)))"
proof -
  have "shape (Sub_defaults env defaults opts)
          = Some (merged_shape defaultShape (o_shape opts))"
    using assms extendShape_merged [of defaultShape "o_shape opts"]
    by (simp add: Sub_defaults_def Path_new_def Let_def split: option.splits)
  then show ?thesis by (simp add: Sub_def Let_def)
qed

text \<open>
  Witness of C7: the default \<^verbatim>\<open>{a: 1}\<close> with the options \<^verbatim>\<open>{shape: {a: 5}}\<close> gives
  \<^verbatim>\<open>shape.a === 5\<close>, and with no shape in the options gives \<^verbatim>\<open>shape.a === 1\<close>.
\<close>

theorem C7_default_shape_witness:
  "(\<exists>sh. shape (Sub demo_env a1_defaults a5_opts) = Some sh \<and> sh ''a'' = Some 5)
   \<and> (\<exists>sh. shape (Sub demo_env a1_defaults (a5_opts\<lparr>o_shape := None\<rparr>)) = Some sh
            \<and> sh ''a'' = Some 1)"
proof -
  have d: "d_shape a1_defaults = Some [(''a'', 1)]"
    by (simp add: a1_defaults_def)
  have i: "d_init a1_defaults = None"
    by (simp add: a1_defaults_def)
  show ?thesis
    using C7_default_shape_amended [OF d, of demo_env a5_opts]
          C7_default_shape_amended [OF d, of demo_env "a5_opts\<lparr>o_shape := None\<rparr>"] i
    by (simp add: merged_shape_def a5_opts_def)
qed

end
